theory Spec2Isabelle
  imports Main "HOL-Library.Char_ord" "HOL-Library.List_Lexorder" "HOL-Library.AList"
begin

section \<open>Python values, the object store and the world\<close>

text \<open>
  The generator works on a parsed JSON document: nested Python dicts and lists. Dicts and
  lists are mutable objects, and the code shares them by reference, so they live in a
  store (a list of objects; an address is an index) and a value holds the address.
  A dict is an association list with distinct keys: its order is the order in which
  \<^verbatim>\<open>iteritems\<close> yields the entries, which Python leaves unspecified.
\<close>

datatype pyval = PNone | PBool bool | PInt int | PStr string | PRef nat

datatype pyobj = ODict "(string \<times> pyval) list" | OList "pyval list"

text \<open>
  Exceptions. \<open>CommunicationError\<close> and \<open>ConfigurationValueError\<close> are the classes of
  \<^verbatim>\<open>apitools.base.py.exceptions\<close>; \<open>OtherError\<close> is any other exception a collaborator raises.
\<close>

datatype exn =
    KeyError string
  | TypeError
  | AttributeError
  | ValueError
  | CommunicationError
  | ConfigurationValueError string
  | OtherError string

text \<open>
  What the code does to its surroundings, in the order it does it: log records, and the
  calls to the collaborators (document sources, name resolver, client info, registries).
\<close>

datatype event =
    logging_warning string
  | logging_error string
  | FetchDiscoveryDoc_call string
  | json_load_call string
  | Names_call
  | ClientInfo_Create_call
  | GetPackage_call string
  | DescriptorGenerator_call
  | MessageRegistry_call
  | AddDescriptorFromSchema_call pyval pyval
  | CommandRegistry_call
  | LookupDescriptorOrDie_call string
  | AddGlobalParameters_call
  | ServiceRegistry_call
  | AddServiceFromResource_call string pyval
  | replace_scopes_call "string list"

record 'i world =
  heap :: "pyobj list"
  infos :: "'i list"
  trace :: "event list"

definition nth_opt :: "'a list \<Rightarrow> nat \<Rightarrow> 'a option" where
  "nth_opt xs n = (if n < length xs then Some (xs ! n) else None)"

text \<open>
  \<^verbatim>\<open>d[k]\<close>: KeyError on a missing key, TypeError when \<open>d\<close> is not a dict (a list wants an
  integer index; None, numbers and strings have no string subscript).
\<close>

definition getitem :: "pyobj list \<Rightarrow> pyval \<Rightarrow> string \<Rightarrow> exn + pyval" where
  "getitem h d k =
     (case d of
        PRef a \<Rightarrow>
          (case nth_opt h a of
             Some (ODict kvs) \<Rightarrow>
               (case map_of kvs k of None \<Rightarrow> Inl (KeyError k) | Some v \<Rightarrow> Inr v)
           | _ \<Rightarrow> Inl TypeError)
      | _ \<Rightarrow> Inl TypeError)"

text \<open>\<^verbatim>\<open>d.get(k, default)\<close>: AttributeError when \<open>d\<close> is not a dict.\<close>

definition dict_get :: "pyobj list \<Rightarrow> pyval \<Rightarrow> string \<Rightarrow> pyval \<Rightarrow> exn + pyval" where
  "dict_get h d k dflt =
     (case d of
        PRef a \<Rightarrow>
          (case nth_opt h a of
             Some (ODict kvs) \<Rightarrow>
               (case map_of kvs k of None \<Rightarrow> Inr dflt | Some v \<Rightarrow> Inr v)
           | _ \<Rightarrow> Inl AttributeError)
      | _ \<Rightarrow> Inl AttributeError)"

section \<open>String operations of \<^verbatim>\<open>_ComputePaths\<close>\<close>

text \<open>\<^verbatim>\<open>sep.join(parts)\<close>\<close>

fun join :: "string \<Rightarrow> string list \<Rightarrow> string" where
  "join sep [] = []"
| "join sep [x] = x"
| "join sep (x # y # ys) = x @ sep @ join sep (y # ys)"

definition startswith :: "string \<Rightarrow> string \<Rightarrow> bool" where
  "startswith s sub = (take (length sub) s = sub)"

text \<open>\<^verbatim>\<open>sub in s\<close> on strings\<close>

fun contains :: "string \<Rightarrow> string \<Rightarrow> bool" where
  "contains sub [] = (sub = [])"
| "contains sub (c # cs) = (startswith (c # cs) sub \<or> contains sub cs)"

text \<open>\<^verbatim>\<open>s.rfind(sep)\<close>: the highest index at which \<open>sep\<close> starts, if any.\<close>

fun rfind :: "string \<Rightarrow> string \<Rightarrow> nat option" where
  "rfind [] sep = (if sep = [] then Some 0 else None)"
| "rfind (c # cs) sep =
     (case rfind cs sep of
        Some i \<Rightarrow> Some (Suc i)
      | None \<Rightarrow> if startswith (c # cs) sep then Some 0 else None)"

text \<open>
  \<^verbatim>\<open>s.rpartition(sep)\<close>: split at the last occurrence of \<open>sep\<close>; two empty strings and
  \<open>s\<close> when there is none; ValueError on an empty separator.
\<close>

definition rpartition :: "string \<Rightarrow> string \<Rightarrow> exn + (string \<times> string \<times> string)" where
  "rpartition s sep =
     (if sep = [] then Inl ValueError
      else case rfind s sep of
             None \<Rightarrow> Inr ([], [], s)
           | Some i \<Rightarrow> Inr (take i s, sep, drop (i + length sep) s))"

section \<open>\<^verbatim>\<open>gen_client_lib._ComputePaths\<close>\<close>

text \<open>
  \<^verbatim>\<open>urlparse.urljoin\<close> is the standard library's; it is a parameter here. It is handed the
  two document entries as they are and yields a string or raises.
  The warning is \<^verbatim>\<open>'Could not find path "%s" in API path "%s"'\<close> with its two arguments filled in.
\<close>

definition could_not_find_path :: "string \<Rightarrow> string \<Rightarrow> string" where
  "could_not_find_path api_path_component full_path =
     ''Could not find path '' @ [CHR 0x22] @ api_path_component @ [CHR 0x22] @
     '' in API path '' @ [CHR 0x22] @ full_path @ [CHR 0x22]"

definition ComputePaths ::
  "(pyval \<Rightarrow> pyval \<Rightarrow> exn + string) \<Rightarrow> string \<Rightarrow> string \<Rightarrow> pyval \<Rightarrow>
   ('i, 'z) world_scheme \<Rightarrow> (exn + string \<times> string) \<times> ('i, 'z) world_scheme" where
  "ComputePaths urljoin package version discovery_doc w =
     (case getitem (heap w) discovery_doc ''rootUrl'' of
        Inl e \<Rightarrow> (Inl e, w)
      | Inr rootUrl \<Rightarrow>
     (case getitem (heap w) discovery_doc ''servicePath'' of
        Inl e \<Rightarrow> (Inl e, w)
      | Inr servicePath \<Rightarrow>
     (case urljoin rootUrl servicePath of
        Inl e \<Rightarrow> (Inl e, w)
      | Inr full_path \<Rightarrow>
          (let api_path_component = join ''/'' [package, version, '''']
           in if \<not> contains api_path_component full_path then
                (Inr (full_path, ''''),
                 w\<lparr>trace := trace w @
                    [logging_warning (could_not_find_path api_path_component full_path)]\<rparr>)
              else
                (case rpartition full_path api_path_component of
                   Inl e \<Rightarrow> (Inl e, w)
                 | Inr (prefix, _, suffix) \<Rightarrow>
                     (Inr (prefix @ api_path_component, suffix), w))))))"

section \<open>Sequencing effects\<close>

text \<open>
  A computation takes the world and returns a result or an exception, with the world as it
  is then: what was done before a raise stays done.
\<close>

definition return :: "'a \<Rightarrow> 'w \<Rightarrow> (exn + 'a) \<times> 'w" where
  "return x w = (Inr x, w)"

definition and_then ::
  "('w \<Rightarrow> (exn + 'a) \<times> 'w) \<Rightarrow> ('a \<Rightarrow> 'w \<Rightarrow> (exn + 'b) \<times> 'w) \<Rightarrow> 'w \<Rightarrow> (exn + 'b) \<times> 'w" where
  "and_then m f w = (case m w of (Inl e, w') \<Rightarrow> (Inl e, w') | (Inr x, w') \<Rightarrow> f x w')"

text \<open>An expression that only reads the store.\<close>

definition read ::
  "(pyobj list \<Rightarrow> exn + 'a) \<Rightarrow> ('i, 'z) world_scheme \<Rightarrow> (exn + 'a) \<times> ('i, 'z) world_scheme" where
  "read f w = (f (heap w), w)"

text \<open>A call to a collaborator: recorded in the trace, then its result or its exception.\<close>

definition call ::
  "event \<Rightarrow> (exn + 'a) \<Rightarrow> ('i, 'z) world_scheme \<Rightarrow> (exn + 'a) \<times> ('i, 'z) world_scheme" where
  "call ev res w = (res, w\<lparr>trace := trace w @ [ev]\<rparr>)"

text \<open>A dict or list display (\<^verbatim>\<open>{...}\<close>, \<^verbatim>\<open>[]\<close>): a new object at a new address.\<close>

definition alloc ::
  "pyobj \<Rightarrow> ('i, 'z) world_scheme \<Rightarrow> (exn + pyval) \<times> ('i, 'z) world_scheme" where
  "alloc obj w = (Inr (PRef (length (heap w))), w\<lparr>heap := heap w @ [obj]\<rparr>)"

text \<open>
  \<^verbatim>\<open>d[k] = v\<close>: the dict object itself changes, for everyone who holds its address.
  A key already there keeps its place; a new key goes last.
\<close>

definition setitem ::
  "pyval \<Rightarrow> string \<Rightarrow> pyval \<Rightarrow> ('i, 'z) world_scheme \<Rightarrow> (exn + unit) \<times> ('i, 'z) world_scheme" where
  "setitem d k v w =
     (case d of
        PRef a \<Rightarrow>
          (case nth_opt (heap w) a of
             Some (ODict kvs) \<Rightarrow>
               (Inr (), w\<lparr>heap := (heap w)[a := ODict (AList.update k v kvs)]\<rparr>)
           | _ \<Rightarrow> (Inl TypeError, w))
      | _ \<Rightarrow> (Inl TypeError, w))"

text \<open>\<^verbatim>\<open>d.iteritems()\<close>: the entries in the dict's iteration order.\<close>

definition iteritems :: "pyobj list \<Rightarrow> pyval \<Rightarrow> exn + (string \<times> pyval) list" where
  "iteritems h d =
     (case d of
        PRef a \<Rightarrow>
          (case nth_opt h a of Some (ODict kvs) \<Rightarrow> Inr kvs | _ \<Rightarrow> Inl AttributeError)
      | _ \<Rightarrow> Inl AttributeError)"

text \<open>Python's truth value, as \<^verbatim>\<open>if api_methods:\<close> takes it.\<close>

definition truthy :: "pyobj list \<Rightarrow> pyval \<Rightarrow> bool" where
  "truthy h v =
     (case v of
        PNone \<Rightarrow> False
      | PBool b \<Rightarrow> b
      | PInt i \<Rightarrow> i \<noteq> 0
      | PStr s \<Rightarrow> s \<noteq> []
      | PRef a \<Rightarrow>
          (case nth_opt h a of
             Some (ODict kvs) \<Rightarrow> kvs \<noteq> []
           | Some (OList xs) \<Rightarrow> xs \<noteq> []
           | None \<Rightarrow> True))"

text \<open>
  A \<^verbatim>\<open>for\<close> loop whose body is one call on the registries: \<open>ev\<close> is the call's record in
  the trace, \<open>f\<close> the call itself, which reads the store and returns the registries as they
  are after it, or raises and ends the loop.
\<close>

primrec for_each ::
  "('a \<Rightarrow> event) \<Rightarrow> (pyobj list \<Rightarrow> 'a \<Rightarrow> 'r \<Rightarrow> exn + 'r) \<Rightarrow> 'a list \<Rightarrow> 'r \<Rightarrow>
   ('i, 'z) world_scheme \<Rightarrow> (exn + 'r) \<times> ('i, 'z) world_scheme" where
  "for_each ev f [] r = return r"
| "for_each ev f (x # xs) r =
     and_then (\<lambda>w. call (ev x) (f (heap w) x r) w) (\<lambda>r'. for_each ev f xs r')"

section \<open>\<^verbatim>\<open>gen_client_lib._StandardQueryParametersSchema\<close>\<close>

text \<open>
  \<^verbatim>\<open>base_cli.TRACE_HELP\<close> is a constant of a module that is not among the sources: a parameter.
  The default \<^verbatim>\<open>{}\<close> of \<^verbatim>\<open>get\<close> is a new dict at every call. When the document has
  \<^verbatim>\<open>parameters\<close>, \<^verbatim>\<open>get\<close> returns that very dict, and the assignment of \<^verbatim>\<open>'trace'\<close> goes to it.
\<close>

definition StandardQueryParametersSchema ::
  "string \<Rightarrow> pyval \<Rightarrow> ('i, 'z) world_scheme \<Rightarrow> (exn + pyval) \<times> ('i, 'z) world_scheme" where
  "StandardQueryParametersSchema TRACE_HELP discovery_doc =
     and_then (alloc (ODict [])) (\<lambda>empty.
     and_then (read (\<lambda>h. dict_get h discovery_doc ''parameters'' empty)) (\<lambda>parameters.
     and_then (alloc (ODict
        [(''id'', PStr ''StandardQueryParameters''),
         (''type'', PStr ''object''),
         (''description'', PStr ''Query parameters accepted by all methods.''),
         (''properties'', parameters)])) (\<lambda>standard_query_schema.
     and_then (alloc (ODict
        [(''type'', PStr ''string''),
         (''description'', PStr TRACE_HELP),
         (''location'', PStr ''query'')])) (\<lambda>trace_entry.
     and_then (read (\<lambda>h. getitem h standard_query_schema ''properties'')) (\<lambda>properties.
     and_then (setitem properties ''trace'' trace_entry) (\<lambda>_.
     return standard_query_schema))))))"

section \<open>The collaborators of \<^verbatim>\<open>gen_client_lib\<close>\<close>

text \<open>
  Modelled from the spec: \<^verbatim>\<open>util.ClientInfo\<close>, whose declaration is not among the sources.
  The spec lists package, version, url-version, scopes and the default output directory; the
  code reads them as attributes and replaces \<open>scopes\<close> with \<^verbatim>\<open>_replace\<close>, so it is a named
  tuple: an immutable object, held by reference (an index into \<open>infos\<close>). Its other fields
  are the record's extension.
\<close>

record ClientInfo =
  package :: string
  version :: string
  url_version :: string
  scopes :: "string list"
  default_directory :: string

text \<open>
  The three registries (\<^verbatim>\<open>message_registry\<close>, \<^verbatim>\<open>command_registry\<close>, \<^verbatim>\<open>service_registry\<close>)
  are not among the sources: they are parameters. They are objects that hold one another
  (the command registry is built on the message registry, the service registry on both), so
  their state is one value of type \<open>'r\<close>; every operation returns it as it is after the call,
  or raises. They are handed the store to read the schemas and resources they are given.
  \<open>'n\<close> is \<^verbatim>\<open>util.Names\<close>, \<open>'d\<close> a message descriptor.
\<close>

record ('r, 'n, 'd, 'i) registries =
  MessageRegistry :: "'i \<Rightarrow> 'n \<Rightarrow> pyval \<Rightarrow> string \<Rightarrow> string \<Rightarrow> exn + 'r"
  AddDescriptorFromSchema :: "pyobj list \<Rightarrow> pyval \<Rightarrow> pyval \<Rightarrow> 'r \<Rightarrow> exn + 'r"
  LookupDescriptorOrDie :: "string \<Rightarrow> 'r \<Rightarrow> exn + 'd"
  CommandRegistry ::
    "string \<Rightarrow> string \<Rightarrow> 'i \<Rightarrow> string \<Rightarrow> string \<Rightarrow> string \<Rightarrow> 'n \<Rightarrow> 'r \<Rightarrow> exn + 'r"
  AddGlobalParameters :: "'d \<Rightarrow> 'r \<Rightarrow> exn + 'r"
  ServiceRegistry ::
    "'i \<Rightarrow> string \<Rightarrow> string \<Rightarrow> 'n \<Rightarrow> string \<Rightarrow> string \<Rightarrow> 'r \<Rightarrow> exn + 'r"
  AddServiceFromResource :: "pyobj list \<Rightarrow> string \<Rightarrow> pyval \<Rightarrow> 'r \<Rightarrow> exn + 'r"
  ServiceRegistry_scopes :: "'r \<Rightarrow> string list"

section \<open>\<^verbatim>\<open>gen_client_lib.DescriptorGenerator\<close>\<close>

record ('r, 'n) DescriptorGenerator =
  self_discovery_doc :: pyval
  self_client_info :: nat
  self_outdir :: string
  self_use_proto2 :: bool
  self_description :: pyval
  self_package :: string
  self_version :: string
  self_root_package :: string
  self_base_files_package :: string
  self_base_files_target :: string
  self_names :: 'n
  self_base_url :: string
  self_base_path :: string
  self_registries :: 'r

text \<open>Reading the named tuple behind \<^verbatim>\<open>self.__client_info\<close>.\<close>

definition client_info_at ::
  "nat \<Rightarrow> ('i, 'z) world_scheme \<Rightarrow> (exn + 'i) \<times> ('i, 'z) world_scheme" where
  "client_info_at ref w =
     (case nth_opt (infos w) ref of
        None \<Rightarrow> (Inl AttributeError, w)
      | Some ci \<Rightarrow> (Inr ci, w))"

text \<open>
  \<^verbatim>\<open>client_info._replace(scopes=...)\<close>: a new named tuple at a new address; the one at
  \<open>ref\<close> stays as it is.
\<close>

definition replace_scopes ::
  "nat \<Rightarrow> string list \<Rightarrow> ('x ClientInfo_scheme, 'z) world_scheme \<Rightarrow>
   (exn + nat) \<times> ('x ClientInfo_scheme, 'z) world_scheme" where
  "replace_scopes ref new_scopes w =
     (case nth_opt (infos w) ref of
        None \<Rightarrow> (Inl AttributeError, w)
      | Some ci \<Rightarrow>
          (Inr (length (infos w)),
           w\<lparr>infos := infos w @ [ci\<lparr>scopes := new_scopes\<rparr>],
             trace := trace w @ [replace_scopes_call new_scopes]\<rparr>))"

text \<open>
  \<^verbatim>\<open>DescriptorGenerator.__init__\<close>. \<^verbatim>\<open>sorted(services.iteritems())\<close> sorts the (name, resource)
  pairs; the names of a dict are distinct, so the names alone decide the order.
\<close>

definition DescriptorGenerator_init ::
  "('r, 'n, 'd, 'x ClientInfo_scheme) registries \<Rightarrow> (pyval \<Rightarrow> pyval \<Rightarrow> exn + string) \<Rightarrow> string \<Rightarrow>
   pyval \<Rightarrow> nat \<Rightarrow> 'n \<Rightarrow> string \<Rightarrow> string \<Rightarrow> bool \<Rightarrow>
   ('x ClientInfo_scheme, 'z) world_scheme \<Rightarrow>
   (exn + ('r, 'n) DescriptorGenerator) \<times> ('x ClientInfo_scheme, 'z) world_scheme" where
  "DescriptorGenerator_init regs urljoin TRACE_HELP discovery_doc client_info names
       root_package outdir use_proto2 =
     and_then (call DescriptorGenerator_call (Inr ())) (\<lambda>_.
     and_then (read (\<lambda>h. dict_get h discovery_doc ''description'' (PStr ''''))) (\<lambda>description.
     and_then (client_info_at client_info) (\<lambda>ci.
     let base_files_package = ''apitools.base.py'';
         base_files_target = ''//cloud/bigscience/apitools/base/py:apitools_base''
     in
     and_then (ComputePaths urljoin (package ci) (url_version ci) discovery_doc)
       (\<lambda>(base_url, base_path).
     and_then (call MessageRegistry_call
        (MessageRegistry regs ci names description root_package base_files_package)) (\<lambda>r.
     and_then (alloc (ODict [])) (\<lambda>no_schemas.
     and_then (read (\<lambda>h. dict_get h discovery_doc ''schemas'' no_schemas)) (\<lambda>schemas.
     and_then (read (\<lambda>h. iteritems h schemas)) (\<lambda>schema_items.
     and_then (for_each (\<lambda>(schema_name, schema).
                           AddDescriptorFromSchema_call (PStr schema_name) schema)
                        (\<lambda>h (schema_name, schema).
                           AddDescriptorFromSchema regs h (PStr schema_name) schema)
                        schema_items r) (\<lambda>r.
     and_then (StandardQueryParametersSchema TRACE_HELP discovery_doc) (\<lambda>standard_query_schema.
     and_then (read (\<lambda>h. getitem h standard_query_schema ''id'')) (\<lambda>schema_id.
     and_then (\<lambda>w. call (AddDescriptorFromSchema_call schema_id standard_query_schema)
        (AddDescriptorFromSchema regs (heap w) schema_id standard_query_schema r) w) (\<lambda>r.
     and_then (call CommandRegistry_call
        (CommandRegistry regs (package ci) (version ci) ci root_package base_files_package
           base_url names r)) (\<lambda>r.
     and_then (call (LookupDescriptorOrDie_call ''StandardQueryParameters'')
        (LookupDescriptorOrDie regs ''StandardQueryParameters'' r)) (\<lambda>descriptor.
     and_then (call AddGlobalParameters_call (AddGlobalParameters regs descriptor r)) (\<lambda>r.
     and_then (call ServiceRegistry_call
        (ServiceRegistry regs ci base_url base_path names root_package base_files_package r))
       (\<lambda>r.
     and_then (alloc (ODict [])) (\<lambda>no_resources.
     and_then (read (\<lambda>h. dict_get h discovery_doc ''resources'' no_resources)) (\<lambda>services.
     and_then (read (\<lambda>h. iteritems h services)) (\<lambda>service_items.
     and_then (for_each (\<lambda>(service_name, methods).
                           AddServiceFromResource_call service_name methods)
                        (\<lambda>h (service_name, methods).
                           AddServiceFromResource regs h service_name methods)
                        (sort_key fst service_items) r) (\<lambda>r.
     and_then (alloc (OList [])) (\<lambda>no_methods.
     and_then (read (\<lambda>h. dict_get h discovery_doc ''methods'' no_methods)) (\<lambda>api_methods.
     and_then (\<lambda>w.
        if truthy (heap w) api_methods then
          and_then (alloc (ODict [(''methods'', api_methods)])) (\<lambda>api_resource w'.
            call (AddServiceFromResource_call ''api'' api_resource)
              (AddServiceFromResource regs (heap w') ''api'' api_resource r) w') w
        else return r w) (\<lambda>r.
     and_then (replace_scopes client_info (ServiceRegistry_scopes regs r)) (\<lambda>new_client_info.
     return
       \<lparr>self_discovery_doc = discovery_doc,
        self_client_info = new_client_info,
        self_outdir = outdir,
        self_use_proto2 = use_proto2,
        self_description = description,
        self_package = package ci,
        self_version = version ci,
        self_root_package = root_package,
        self_base_files_package = base_files_package,
        self_base_files_target = base_files_target,
        self_names = names,
        self_base_url = base_url,
        self_base_path = base_path,
        self_registries = r\<rparr>))))))))))))))))))))))))"

section \<open>\<^verbatim>\<open>gen_client\<close>: the command line\<close>

text \<open>The flags the module defines. \<^verbatim>\<open>FLAGS\<close> is process-wide and the code assigns to it.\<close>

record flags =
  infile :: string
  discovery_url :: string
  outdir :: string
  overwrite :: bool
  root_package_dir :: string
  strip_prefix :: "string list"
  api_key :: "string option"
  client_id :: "string option"
  client_secret :: "string option"
  scope :: "string list"
  user_agent :: string
  experimental_capitalize_enums :: bool
  experimental_name_convention :: string
  experimental_proto2_output :: bool

record 'i cli_world = "'i world" +
  FLAGS :: flags

text \<open>
  What \<^verbatim>\<open>_GetCodegenFromFlags\<close> calls outside the sources: the two document sources
  (\<^verbatim>\<open>util.FetchDiscoveryDoc\<close>, and \<^verbatim>\<open>json.load(open(...))\<close>), which put the parsed document into the
  store or raise; the file system (\<^verbatim>\<open>os.path\<close>); \<^verbatim>\<open>util.Names\<close>, \<^verbatim>\<open>util.ClientInfo.Create\<close>
  and \<^verbatim>\<open>util.GetPackage\<close>. All are parameters.
\<close>

record ('n, 'i) environment =
  FetchDiscoveryDoc :: "string \<Rightarrow> pyobj list \<Rightarrow> exn + pyval \<times> pyobj list"
  json_load_open :: "string \<Rightarrow> pyobj list \<Rightarrow> exn + pyval \<times> pyobj list"
  expanduser :: "string \<Rightarrow> string"
  path_exists :: "string \<Rightarrow> bool"
  abspath :: "string \<Rightarrow> string"
  Names :: "string list \<Rightarrow> string \<Rightarrow> bool \<Rightarrow> exn + 'n"
  ClientInfo_Create ::
    "pyobj list \<Rightarrow> pyval \<Rightarrow> string list \<Rightarrow> string option \<Rightarrow> string option \<Rightarrow> string \<Rightarrow> 'n \<Rightarrow>
     string option \<Rightarrow> exn + 'i"
  GetPackage :: "string \<Rightarrow> exn + string"

text \<open>\<^verbatim>\<open>a or b\<close> on strings: \<open>a\<close> unless it is empty.\<close>

definition str_or :: "string \<Rightarrow> string \<Rightarrow> string" where
  "str_or a b = (if a \<noteq> [] then a else b)"

definition raise :: "exn \<Rightarrow> 'w \<Rightarrow> (exn + 'a) \<times> 'w" where
  "raise e w = (Inl e, w)"

text \<open>A document source: its call is recorded, and the document it parsed is in the store.\<close>

definition load_document ::
  "event \<Rightarrow> (pyobj list \<Rightarrow> exn + pyval \<times> pyobj list) \<Rightarrow> ('i, 'z) world_scheme \<Rightarrow>
   (exn + pyval) \<times> ('i, 'z) world_scheme" where
  "load_document ev source w =
     (case source (heap w) of
        Inl e \<Rightarrow> (Inl e, w\<lparr>trace := trace w @ [ev]\<rparr>)
      | Inr (doc, h) \<Rightarrow> (Inr doc, w\<lparr>heap := h, trace := trace w @ [ev]\<rparr>))"

text \<open>The named tuple \<^verbatim>\<open>ClientInfo.Create\<close> returns is a new object.\<close>

definition new_client_info ::
  "'i \<Rightarrow> ('i, 'z) world_scheme \<Rightarrow> (exn + nat) \<times> ('i, 'z) world_scheme" where
  "new_client_info ci w = (Inr (length (infos w)), w\<lparr>infos := infos w @ [ci]\<rparr>)"

definition output_directory_exists :: string where
  "output_directory_exists =
     ''Output directory exists, pass --overwrite to replace the existing files.''"

text \<open>
  \<^verbatim>\<open>_GetCodegenFromFlags\<close>. The result \<open>None\<close> is the \<^verbatim>\<open>return None\<close> of the handler of
  \<^verbatim>\<open>CommunicationError\<close>; any other exception of the fetch propagates.
\<close>

definition GetCodegenFromFlags ::
  "('n, 'x ClientInfo_scheme) environment \<Rightarrow> ('r, 'n, 'd, 'x ClientInfo_scheme) registries \<Rightarrow>
   (pyval \<Rightarrow> pyval \<Rightarrow> exn + string) \<Rightarrow> string \<Rightarrow>
   ('x ClientInfo_scheme, 'z) cli_world_scheme \<Rightarrow>
   (exn + ('r, 'n) DescriptorGenerator option) \<times> ('x ClientInfo_scheme, 'z) cli_world_scheme" where
  "GetCodegenFromFlags env regs urljoin TRACE_HELP w0 =
     (case
        (if discovery_url (FLAGS w0) \<noteq> [] then
           (case load_document (FetchDiscoveryDoc_call (discovery_url (FLAGS w0)))
                   (FetchDiscoveryDoc env (discovery_url (FLAGS w0))) w0 of
              (Inl CommunicationError, w) \<Rightarrow> (Inr None, w)
            | (Inl e, w) \<Rightarrow> (Inl e, w)
            | (Inr discovery_doc, w) \<Rightarrow> (Inr (Some discovery_doc), w))
         else
           (let file = str_or (expanduser env (infile (FLAGS w0))) ''/dev/stdin''
            in case load_document (json_load_call file) (json_load_open env file) w0 of
                 (Inl e, w) \<Rightarrow> (Inl e, w)
               | (Inr discovery_doc, w) \<Rightarrow> (Inr (Some discovery_doc), w)))
      of
        (Inl e, w) \<Rightarrow> (Inl e, w)
      | (Inr None, w) \<Rightarrow> (Inr None, w)
      | (Inr (Some discovery_doc), w) \<Rightarrow>
         (and_then (\<lambda>w. call Names_call
            (Names env (strip_prefix (FLAGS w)) (experimental_name_convention (FLAGS w))
               (experimental_capitalize_enums (FLAGS w))) w) (\<lambda>names.
          and_then (\<lambda>w. call ClientInfo_Create_call
            (ClientInfo_Create env (heap w) discovery_doc (scope (FLAGS w)) (client_id (FLAGS w))
               (client_secret (FLAGS w)) (user_agent (FLAGS w)) names (api_key (FLAGS w))) w) (\<lambda>ci.
          and_then (new_client_info ci) (\<lambda>client_info w.
            let dir = str_or (expanduser env (outdir (FLAGS w))) (default_directory ci)
            in if path_exists env dir \<and> \<not> overwrite (FLAGS w) then
                 raise (ConfigurationValueError output_directory_exists) w
               else
                 and_then (\<lambda>w. return ()
                    (if root_package_dir (FLAGS w) = [] then
                       w\<lparr>FLAGS := (FLAGS w)\<lparr>root_package_dir := dir\<rparr>\<rparr>
                     else w)) (\<lambda>_.
                 and_then (\<lambda>w. return ()
                    (w\<lparr>FLAGS := (FLAGS w)
                       \<lparr>root_package_dir := abspath env (root_package_dir (FLAGS w))\<rparr>\<rparr>)) (\<lambda>_.
                 and_then (\<lambda>w. call (GetPackage_call (root_package_dir (FLAGS w)))
                    (GetPackage env (root_package_dir (FLAGS w))) w) (\<lambda>root_package.
                 and_then (\<lambda>w. DescriptorGenerator_init regs urljoin TRACE_HELP discovery_doc
                    client_info names root_package dir (experimental_proto2_output (FLAGS w)) w)
                   (\<lambda>codegen.
                 return (Some codegen))))) w)))) w)"

text \<open>
  \<^verbatim>\<open>GenerateClient.Run\<close>. \<^verbatim>\<open>_WriteGeneratedFiles\<close> and \<^verbatim>\<open>_WriteInit\<close> write the output files
  through the registries' writers and the file system: parameters. The result is what
  \<^verbatim>\<open>Run\<close> returns, which the command framework takes as the exit status: 128, or Python's
  \<open>None\<close> at the end of the body.
\<close>

definition GenerateClient_Run ::
  "('n, 'x ClientInfo_scheme) environment \<Rightarrow> ('r, 'n, 'd, 'x ClientInfo_scheme) registries \<Rightarrow>
   (pyval \<Rightarrow> pyval \<Rightarrow> exn + string) \<Rightarrow> string \<Rightarrow>
   (('r, 'n) DescriptorGenerator \<Rightarrow> ('x ClientInfo_scheme, 'z) cli_world_scheme \<Rightarrow>
      (exn + unit) \<times> ('x ClientInfo_scheme, 'z) cli_world_scheme) \<Rightarrow>
   (('r, 'n) DescriptorGenerator \<Rightarrow> ('x ClientInfo_scheme, 'z) cli_world_scheme \<Rightarrow>
      (exn + unit) \<times> ('x ClientInfo_scheme, 'z) cli_world_scheme) \<Rightarrow>
   ('x ClientInfo_scheme, 'z) cli_world_scheme \<Rightarrow>
   (exn + int option) \<times> ('x ClientInfo_scheme, 'z) cli_world_scheme" where
  "GenerateClient_Run env regs urljoin TRACE_HELP WriteGeneratedFiles WriteInit =
     and_then (GetCodegenFromFlags env regs urljoin TRACE_HELP) (\<lambda>codegen.
       case codegen of
         None \<Rightarrow>
           and_then (call (logging_error ''Failed to create codegen, exiting.'') (Inr ()))
             (\<lambda>_. return (Some 128))
       | Some generator \<Rightarrow>
           and_then (WriteGeneratedFiles generator) (\<lambda>_.
           and_then (WriteInit generator) (\<lambda>_.
           return None)))"

section \<open>Parsed documents in the store\<close>

text \<open>
  The entries of the mapping a document has under a key, in iteration order: no entries
  when the key is absent, and nothing when what is there is not a mapping of the store.
\<close>

definition mapping_at ::
  "pyobj list \<Rightarrow> (string \<times> pyval) list \<Rightarrow> string \<Rightarrow> (string \<times> pyval) list option" where
  "mapping_at h doc k =
     (case map_of doc k of
        None \<Rightarrow> Some []
      | Some (PRef p) \<Rightarrow> (case nth_opt h p of Some (ODict kvs) \<Rightarrow> Some kvs | _ \<Rightarrow> None)
      | Some _ \<Rightarrow> None)"

text \<open>
  A discovery document as \<^verbatim>\<open>json.load\<close> leaves it: a dict at address \<open>a\<close> with entries \<open>doc\<close>,
  whose \<^verbatim>\<open>parameters\<close>, \<^verbatim>\<open>schemas\<close> and \<^verbatim>\<open>resources\<close>, where present, are dicts of the store,
  whose \<^verbatim>\<open>methods\<close>, where present, is in the store, and whose \<^verbatim>\<open>parameters\<close> dict is an
  object of its own (a parser shares no object between two entries).
\<close>

definition parsed_document :: "pyobj list \<Rightarrow> nat \<Rightarrow> (string \<times> pyval) list \<Rightarrow> bool" where
  "parsed_document h a doc \<longleftrightarrow>
     nth_opt h a = Some (ODict doc) \<and>
     mapping_at h doc ''parameters'' \<noteq> None \<and>
     mapping_at h doc ''schemas'' \<noteq> None \<and>
     mapping_at h doc ''resources'' \<noteq> None \<and>
     (case map_of doc ''methods'' of Some (PRef m) \<Rightarrow> m < length h | _ \<Rightarrow> True) \<and>
     (case map_of doc ''parameters'' of
        None \<Rightarrow> True
      | Some v \<Rightarrow>
          v \<noteq> PRef a \<and> map_of doc ''resources'' \<noteq> Some v \<and> map_of doc ''methods'' \<noteq> Some v)"

text \<open>
  The address of the dict that the standard-query-parameters schema gets as its
  \<^verbatim>\<open>properties\<close>: the document's own \<^verbatim>\<open>parameters\<close> dict, or else the new empty dict at
  address \<open>d\<close>.
\<close>

definition properties_address :: "nat \<Rightarrow> (string \<times> pyval) list \<Rightarrow> nat" where
  "properties_address d doc =
     (case map_of doc ''parameters'' of Some (PRef p) \<Rightarrow> p | _ \<Rightarrow> d)"

text \<open>Whether the document has top-level methods, as \<^verbatim>\<open>if api_methods:\<close> sees them.\<close>

definition has_api_methods :: "pyobj list \<Rightarrow> (string \<times> pyval) list \<Rightarrow> bool" where
  "has_api_methods h doc =
     (case map_of doc ''methods'' of None \<Rightarrow> False | Some v \<Rightarrow> truthy h v)"

text \<open>
  The document's top-level \<^verbatim>\<open>methods\<close>, when the entry is present and not empty: a dict or a
  list of the store with at least one element.
\<close>

definition top_level_methods :: "pyobj list \<Rightarrow> (string \<times> pyval) list \<Rightarrow> pyval option" where
  "top_level_methods h doc =
     (case map_of doc ''methods'' of
        Some (PRef m) \<Rightarrow>
          (case nth_opt h m of
             Some obj \<Rightarrow> if obj = ODict [] \<or> obj = OList [] then None else Some (PRef m)
           | None \<Rightarrow> None)
      | _ \<Rightarrow> None)"

section \<open>Concrete collaborators and inputs for the examples\<close>

text \<open>A stand-in for \<^verbatim>\<open>urlparse.urljoin\<close> that concatenates, as it does for a root URL ending in
  a slash and a relative service path.\<close>

definition concat_urljoin :: "pyval \<Rightarrow> pyval \<Rightarrow> exn + string" where
  "concat_urljoin base url =
     (case (base, url) of (PStr b, PStr u) \<Rightarrow> Inr (b @ u) | _ \<Rightarrow> Inl AttributeError)"

text \<open>A world holding one document (at address 0) and nothing else.\<close>

definition doc_world :: "(string \<times> pyval) list \<Rightarrow> unit world" where
  "doc_world kvs = \<lparr>heap = [ODict kvs], infos = [], trace = []\<rparr>"

text \<open>
  Registries that only keep lists of what they were given, in the order they were given
  it: the schema names, the descriptor the command registry was seeded with, and the
  service names. The scopes stand-in is one scope per service, its name.
\<close>

record registry_lists =
  message_names :: "pyval list"
  global_parameters :: "pyval option"
  service_names :: "string list"

definition list_registries :: "(registry_lists, unit, pyval, ClientInfo) registries" where
  "list_registries =
     \<lparr>MessageRegistry = (\<lambda>ci names description root_package base_files_package.
         Inr \<lparr>message_names = [], global_parameters = None, service_names = []\<rparr>),
      AddDescriptorFromSchema = (\<lambda>h schema_name schema r.
         Inr (r\<lparr>message_names := message_names r @ [schema_name]\<rparr>)),
      LookupDescriptorOrDie = (\<lambda>schema_name r.
         if PStr schema_name \<in> set (message_names r) then Inr (PStr schema_name)
         else Inl (OtherError ''unknown descriptor'')),
      CommandRegistry = (\<lambda>pkg ver ci root_package base_files_package base_url names r. Inr r),
      AddGlobalParameters = (\<lambda>descriptor r. Inr (r\<lparr>global_parameters := Some descriptor\<rparr>)),
      ServiceRegistry = (\<lambda>ci base_url base_path names root_package base_files_package r. Inr r),
      AddServiceFromResource = (\<lambda>h service_name methods r.
         Inr (r\<lparr>service_names := service_names r @ [service_name]\<rparr>)),
      ServiceRegistry_scopes = service_names\<rparr>"

text \<open>
  A document with global parameters, two schemas, two resources (iterated as \<open>items\<close>, then
  \<open>buckets\<close>) and one top-level method, as \<^verbatim>\<open>json.load\<close> would leave it in the store: the
  document at address 0, every nested object at an address of its own. The client info
  at address 0 of \<open>infos\<close> is the one \<^verbatim>\<open>ClientInfo.Create\<close> would have made for it.
\<close>

definition example_document :: "(string \<times> pyval) list" where
  "example_document =
     [(''rootUrl'', PStr ''https://x.com/''), (''servicePath'', PStr ''pkg/v1/''),
      (''parameters'', PRef 1), (''schemas'', PRef 2), (''resources'', PRef 3),
      (''methods'', PRef 4)]"

definition example_heap :: "pyobj list" where
  "example_heap =
     [ODict example_document,
      ODict [(''fields'', PRef 5)],
      ODict [(''Item'', PRef 6), (''Bucket'', PRef 7)],
      ODict [(''items'', PRef 8), (''buckets'', PRef 9)],
      ODict [(''ping'', PRef 10)],
      ODict [(''type'', PStr ''string''), (''location'', PStr ''query'')],
      ODict [(''type'', PStr ''object'')],
      ODict [(''type'', PStr ''object'')],
      ODict [],
      ODict [],
      ODict []]"

definition example_info :: ClientInfo where
  "example_info =
     \<lparr>package = ''pkg'', version = ''v1'', url_version = ''v1'', scopes = [],
      default_directory = ''pkg''\<rparr>"

definition example_world :: "ClientInfo world" where
  "example_world = \<lparr>heap = example_heap, infos = [example_info], trace = []\<rparr>"

text \<open>
  The construction on the example, and the generator and the world it ends with. The
  objects the construction adds to the store are, from address 11 on: the unused default
  of \<^verbatim>\<open>schemas\<close>, the unused default of \<^verbatim>\<open>parameters\<close>, the schema, its \<^verbatim>\<open>trace\<close> entry, the
  unused defaults of \<^verbatim>\<open>resources\<close> and \<^verbatim>\<open>methods\<close>, and the resource that wraps the
  top-level methods.
\<close>

definition example_construction ::
  "(exn + (registry_lists, unit) DescriptorGenerator) \<times> ClientInfo world" where
  "example_construction =
     DescriptorGenerator_init list_registries concat_urljoin ''A trace token.'' (PRef 0) 0 ()
       ''root'' ''out'' False example_world"

definition example_generator :: "(registry_lists, unit) DescriptorGenerator" where
  "example_generator =
     \<lparr>self_discovery_doc = PRef 0, self_client_info = 1, self_outdir = ''out'',
      self_use_proto2 = False, self_description = PStr '''', self_package = ''pkg'',
      self_version = ''v1'', self_root_package = ''root'',
      self_base_files_package = ''apitools.base.py'',
      self_base_files_target = ''//cloud/bigscience/apitools/base/py:apitools_base'',
      self_names = (), self_base_url = ''https://x.com/pkg/v1/'', self_base_path = '''',
      self_registries =
        \<lparr>message_names = [PStr ''Item'', PStr ''Bucket'', PStr ''StandardQueryParameters''],
         global_parameters = Some (PStr ''StandardQueryParameters''),
         service_names = [''buckets'', ''items'', ''api'']\<rparr>\<rparr>"

definition example_world_after :: "ClientInfo world" where
  "example_world_after =
     \<lparr>heap =
        [ODict example_document,
         ODict [(''fields'', PRef 5), (''trace'', PRef 14)],
         ODict [(''Item'', PRef 6), (''Bucket'', PRef 7)],
         ODict [(''items'', PRef 8), (''buckets'', PRef 9)],
         ODict [(''ping'', PRef 10)],
         ODict [(''type'', PStr ''string''), (''location'', PStr ''query'')],
         ODict [(''type'', PStr ''object'')],
         ODict [(''type'', PStr ''object'')],
         ODict [],
         ODict [],
         ODict [],
         ODict [],
         ODict [],
         ODict [(''id'', PStr ''StandardQueryParameters''), (''type'', PStr ''object''),
                (''description'', PStr ''Query parameters accepted by all methods.''),
                (''properties'', PRef 1)],
         ODict [(''type'', PStr ''string''), (''description'', PStr ''A trace token.''),
                (''location'', PStr ''query'')],
         ODict [],
         OList [],
         ODict [(''methods'', PRef 4)]],
      infos = [example_info, example_info\<lparr>scopes := [''buckets'', ''items'', ''api'']\<rparr>],
      trace =
        [DescriptorGenerator_call, MessageRegistry_call,
         AddDescriptorFromSchema_call (PStr ''Item'') (PRef 6),
         AddDescriptorFromSchema_call (PStr ''Bucket'') (PRef 7),
         AddDescriptorFromSchema_call (PStr ''StandardQueryParameters'') (PRef 13),
         CommandRegistry_call, LookupDescriptorOrDie_call ''StandardQueryParameters'',
         AddGlobalParameters_call, ServiceRegistry_call,
         AddServiceFromResource_call ''buckets'' (PRef 9),
         AddServiceFromResource_call ''items'' (PRef 8),
         AddServiceFromResource_call ''api'' (PRef 17),
         replace_scopes_call [''buckets'', ''items'', ''api'']]\<rparr>"

text \<open>
  The same store, but with the two schemas iterated the other way round: as a mapping
  the document is the same.
\<close>

definition example_heap_reordered :: "pyobj list" where
  "example_heap_reordered = example_heap[2 := ODict [(''Bucket'', PRef 7), (''Item'', PRef 6)]]"

definition example_construction_reordered ::
  "(exn + (registry_lists, unit) DescriptorGenerator) \<times> ClientInfo world" where
  "example_construction_reordered =
     DescriptorGenerator_init list_registries concat_urljoin ''A trace token.'' (PRef 0) 0 ()
       ''root'' ''out'' False (example_world\<lparr>heap := example_heap_reordered\<rparr>)"

text \<open>
  A command line and its surroundings: the network is down; a file holds a document with
  the two URL entries only; the directory \<^verbatim>\<open>existing\<close> exists and no other does.
\<close>

definition example_environment :: "(unit, ClientInfo) environment" where
  "example_environment =
     \<lparr>FetchDiscoveryDoc = (\<lambda>url h. Inl CommunicationError),
      json_load_open = (\<lambda>file h.
         Inr (PRef (length h),
              h @ [ODict [(''rootUrl'', PStr ''https://x.com/''),
                          (''servicePath'', PStr ''pkg/v1/'')]])),
      expanduser = (\<lambda>path. path),
      path_exists = (\<lambda>path. path = ''existing''),
      abspath = (\<lambda>path. ''/work/'' @ path),
      Names = (\<lambda>prefixes convention capitalize. Inr ()),
      ClientInfo_Create = (\<lambda>h doc scope_list cid secret agent names key. Inr example_info),
      GetPackage = (\<lambda>path. Inr path)\<rparr>"

definition example_flags :: flags where
  "example_flags =
     \<lparr>infile = ''doc.json'', discovery_url = '''', outdir = ''existing'', overwrite = False,
      root_package_dir = '''', strip_prefix = [], api_key = None, client_id = Some ''id'',
      client_secret = Some ''secret'', scope = [], user_agent = '''',
      experimental_capitalize_enums = False, experimental_name_convention = ''default'',
      experimental_proto2_output = False\<rparr>"

definition example_cli_world :: "flags \<Rightarrow> ClientInfo cli_world" where
  "example_cli_world f = \<lparr>heap = [], infos = [], trace = [], FLAGS = f\<rparr>"

section \<open>Properties\<close>

subsection \<open>Substring search\<close>

lemma contains_iff: "contains sub s \<longleftrightarrow> (\<exists>p q. s = p @ sub @ q)"
proof (induction s)
  case Nil
  then show ?case by auto
next
  case (Cons c cs)
  show ?case
  proof
    assume "contains sub (c # cs)"
    then consider "startswith (c # cs) sub" | "contains sub cs" by auto
    then show "\<exists>p q. c # cs = p @ sub @ q"
    proof cases
      case 1
      then have "c # cs = [] @ sub @ drop (length sub) (c # cs)"
        unfolding startswith_def by (metis append_Nil append_take_drop_id)
      then show ?thesis by blast
    next
      case 2
      then obtain p q where "cs = p @ sub @ q" using Cons.IH by blast
      then have "c # cs = (c # p) @ sub @ q" by simp
      then show ?thesis by blast
    qed
  next
    assume "\<exists>p q. c # cs = p @ sub @ q"
    then obtain p q where pq: "c # cs = p @ sub @ q" by blast
    show "contains sub (c # cs)"
    proof (cases p)
      case Nil
      then have "startswith (c # cs) sub" using pq by (simp add: startswith_def)
      then show ?thesis by simp
    next
      case (Cons a p')
      then have "cs = p' @ sub @ q" using pq by simp
      then show ?thesis using Cons.IH by auto
    qed
  qed
qed

lemma rfind_Some:
  "rfind s sep = Some i \<Longrightarrow> s = take i s @ sep @ drop (i + length sep) s"
proof (induction s arbitrary: i)
  case Nil
  then show ?case by (auto split: if_splits)
next
  case (Cons c cs)
  show ?case
  proof (cases "rfind cs sep")
    case None
    with Cons.prems have st: "startswith (c # cs) sep" and i: "i = 0"
      by (auto split: if_splits)
    then show ?thesis unfolding startswith_def
      by (metis add_0 append_Nil append_take_drop_id take_0)
  next
    case (Some j)
    with Cons.prems have i: "i = Suc j" by simp
    from Cons.IH[OF Some] show ?thesis using i by simp
  qed
qed

lemma rfind_last:
  "rfind s sep = Some i \<Longrightarrow> s = p @ sep @ q \<Longrightarrow> length p \<le> i"
proof (induction s arbitrary: i p)
  case Nil
  then show ?case by simp
next
  case (Cons c cs)
  show ?case
  proof (cases p)
    case Nil
    then show ?thesis by simp
  next
    case (Cons a p')
    with Cons.prems(2) have cs: "cs = p' @ sep @ q" by simp
    then have "contains sep cs" using contains_iff by blast
    show ?thesis
    proof (cases "rfind cs sep")
      case None
      have "False" using None cs
      proof (induction cs arbitrary: p')
        case Nil
        then show ?case by (auto split: if_splits)
      next
        case (Cons d ds)
        show ?case
        proof (cases p')
          case Nil
          with Cons.prems(2) have "startswith (d # ds) sep" by (simp add: startswith_def)
          with Cons.prems(1) show ?thesis by (auto split: option.splits)
        next
          case (Cons b p'')
          with Cons.prems(2) have "ds = p'' @ sep @ q" by simp
          moreover from Cons.prems(1) have "rfind ds sep = None" by (auto split: option.splits)
          ultimately show ?thesis using Cons.IH by blast
        qed
      qed
      then show ?thesis ..
    next
      case (Some j)
      with Cons.prems(1) have "i = Suc j" by simp
      moreover from Cons.IH[OF Some cs] have "length p' \<le> j" .
      ultimately show ?thesis using Cons by simp
    qed
  qed
qed


lemma contains_rfind: "contains sep s \<Longrightarrow> \<exists>i. rfind s sep = Some i"
  by (induction s) (auto split: option.splits)

subsection \<open>\<^verbatim>\<open>_ComputePaths\<close>\<close>

text \<open>
  Claim C1. When the document has \<^verbatim>\<open>rootUrl\<close> and \<^verbatim>\<open>servicePath\<close> and their join is
  \<open>full_path\<close>: if the component \<^verbatim>\<open>package/version/\<close> occurs in \<open>full_path\<close>, the result is a base
  URL that ends with an occurrence of the component and the remainder of \<open>full_path\<close> as the
  path suffix, and nothing is logged; if it does not occur, the result is \<open>full_path\<close> with
  an empty suffix, the call still returns normally, and one warning is logged.
\<close>

theorem C1_ComputePaths_split:
  assumes "getitem (heap w) discovery_doc ''rootUrl'' = Inr rootUrl"
    and "getitem (heap w) discovery_doc ''servicePath'' = Inr servicePath"
    and "urljoin rootUrl servicePath = Inr full_path"
  shows "if \<exists>p q. full_path = p @ (pkg @ ''/'' @ ver @ ''/'') @ q
         then \<exists>p q. full_path = p @ (pkg @ ''/'' @ ver @ ''/'') @ q \<and>
                ComputePaths urljoin pkg ver discovery_doc w =
                  (Inr (p @ (pkg @ ''/'' @ ver @ ''/''), q), w)
         else ComputePaths urljoin pkg ver discovery_doc w =
                (Inr (full_path, ''''),
                 w\<lparr>trace := trace w @
                    [logging_warning
                       (could_not_find_path (pkg @ ''/'' @ ver @ ''/'') full_path)]\<rparr>)"
proof -
  let ?c = "pkg @ ''/'' @ ver @ ''/''"
  have j: "join ''/'' [pkg, ver, ''''] = ?c" by simp
  have ne: "?c \<noteq> []" by simp
  show ?thesis
  proof (cases "contains ?c full_path")
    case True
    then obtain i where i: "rfind full_path ?c = Some i"
      using contains_rfind by blast
    have split: "full_path = take i full_path @ ?c @ drop (i + length ?c) full_path"
      using rfind_Some[OF i] .
    have run: "ComputePaths urljoin pkg ver discovery_doc w =
        (Inr (take i full_path @ ?c, drop (i + length ?c) full_path), w)"
      using assms True i ne unfolding ComputePaths_def rpartition_def j
      by (simp del: append_assoc)
    have ex: "\<exists>p q. full_path = p @ ?c @ q" using True contains_iff by blast
    have "\<exists>p q. full_path = p @ ?c @ q \<and>
                ComputePaths urljoin pkg ver discovery_doc w = (Inr (p @ ?c, q), w)"
      using split run by blast
    then show ?thesis using ex by simp
  next
    case False
    then have nex: "\<not> (\<exists>p q. full_path = p @ ?c @ q)" using contains_iff by blast
    have "ComputePaths urljoin pkg ver discovery_doc w =
                (Inr (full_path, ''''),
                 w\<lparr>trace := trace w @ [logging_warning (could_not_find_path ?c full_path)]\<rparr>)"
      using assms False unfolding ComputePaths_def j by (simp del: append_assoc)
    then show ?thesis using nex by simp
  qed
qed

theorem C1_ComputePaths_split_witness:
  "getitem (heap (doc_world [(''rootUrl'', PStr ''https://x.com/''), (''servicePath'', PStr ''pkg/v1/'')]))
      (PRef 0) ''rootUrl'' = Inr (PStr ''https://x.com/'') \<and>
   getitem (heap (doc_world [(''rootUrl'', PStr ''https://x.com/''), (''servicePath'', PStr ''pkg/v1/'')]))
      (PRef 0) ''servicePath'' = Inr (PStr ''pkg/v1/'') \<and>
   concat_urljoin (PStr ''https://x.com/'') (PStr ''pkg/v1/'') = Inr ''https://x.com/pkg/v1/'' \<and>
   ComputePaths concat_urljoin ''pkg'' ''v1'' (PRef 0)
     (doc_world [(''rootUrl'', PStr ''https://x.com/''), (''servicePath'', PStr ''pkg/v1/'')])
   = (Inr (''https://x.com/pkg/v1/'', ''''),
      doc_world [(''rootUrl'', PStr ''https://x.com/''), (''servicePath'', PStr ''pkg/v1/'')]) \<and>
   fst (ComputePaths concat_urljoin ''pkg'' ''v2'' (PRef 0)
     (doc_world [(''rootUrl'', PStr ''https://x.com/''), (''servicePath'', PStr ''pkg/v1/'')]))
   = Inr (''https://x.com/pkg/v1/'', '''') \<and>
   trace (snd (ComputePaths concat_urljoin ''pkg'' ''v2'' (PRef 0)
     (doc_world [(''rootUrl'', PStr ''https://x.com/''), (''servicePath'', PStr ''pkg/v1/'')])))
   = [logging_warning (could_not_find_path ''pkg/v2/'' ''https://x.com/pkg/v1/'')]"
proof -
  let ?w = "doc_world [(''rootUrl'', PStr ''https://x.com/''), (''servicePath'', PStr ''pkg/v1/'')]"
  have h1: "getitem (heap ?w) (PRef 0) ''rootUrl'' = Inr (PStr ''https://x.com/'')"
    by (simp add: doc_world_def getitem_def nth_opt_def)
  have h2: "getitem (heap ?w) (PRef 0) ''servicePath'' = Inr (PStr ''pkg/v1/'')"
    by (simp add: doc_world_def getitem_def nth_opt_def)
  have h3: "concat_urljoin (PStr ''https://x.com/'') (PStr ''pkg/v1/'') = Inr ''https://x.com/pkg/v1/''"
    by (simp add: concat_urljoin_def)
  note t = C1_ComputePaths_split [where urljoin = concat_urljoin and pkg = "''pkg''"
      and ver = "''v1''", OF h1 h2 h3]
  have run: "ComputePaths concat_urljoin ''pkg'' ''v1'' (PRef 0) ?w
      = (Inr (''https://x.com/pkg/v1/'', ''''), ?w)"
    by (simp add: ComputePaths_def doc_world_def getitem_def nth_opt_def concat_urljoin_def
      rpartition_def startswith_def Let_def)
  have run2: "fst (ComputePaths concat_urljoin ''pkg'' ''v2'' (PRef 0) ?w)
      = Inr (''https://x.com/pkg/v1/'', '''')"
    by (simp add: ComputePaths_def doc_world_def getitem_def nth_opt_def concat_urljoin_def
      rpartition_def startswith_def Let_def)
  have run3: "trace (snd (ComputePaths concat_urljoin ''pkg'' ''v2'' (PRef 0) ?w))
      = [logging_warning (could_not_find_path ''pkg/v2/'' ''https://x.com/pkg/v1/'')]"
    by (simp add: ComputePaths_def doc_world_def getitem_def nth_opt_def concat_urljoin_def
      rpartition_def startswith_def Let_def)
  from t h1 h2 h3 run run2 run3 show ?thesis by (intro conjI) assumption+
qed

text \<open>
  Claim C10. Under the same conditions the call returns a pair whose two strings
  concatenate to \<open>full_path\<close>, and whenever the component occurs in \<open>full_path\<close> the base URL
  ends with the component at its last occurrence: no occurrence starts further right.
\<close>

theorem C10_ComputePaths_concat_last:
  assumes "getitem (heap w) discovery_doc ''rootUrl'' = Inr rootUrl"
    and "getitem (heap w) discovery_doc ''servicePath'' = Inr servicePath"
    and "urljoin rootUrl servicePath = Inr full_path"
  shows "\<exists>base_url base_path.
           fst (ComputePaths urljoin pkg ver discovery_doc w) = Inr (base_url, base_path) \<and>
           base_url @ base_path = full_path \<and>
           (\<forall>p q. full_path = p @ (pkg @ ''/'' @ ver @ ''/'') @ q \<longrightarrow>
              (\<exists>p0. base_url = p0 @ (pkg @ ''/'' @ ver @ ''/'') \<and> length p \<le> length p0))"
proof -
  let ?c = "pkg @ ''/'' @ ver @ ''/''"
  have j: "join ''/'' [pkg, ver, ''''] = ?c" by simp
  have ne: "?c \<noteq> []" by simp
  show ?thesis
  proof (cases "contains ?c full_path")
    case True
    then obtain i where i: "rfind full_path ?c = Some i"
      using contains_rfind by blast
    have split: "full_path = take i full_path @ ?c @ drop (i + length ?c) full_path"
      using rfind_Some[OF i] .
    have run: "fst (ComputePaths urljoin pkg ver discovery_doc w) =
        Inr (take i full_path @ ?c, drop (i + length ?c) full_path)"
      using assms True i ne unfolding ComputePaths_def rpartition_def j
      by (simp del: append_assoc)
    have cat: "(take i full_path @ ?c) @ drop (i + length ?c) full_path = full_path"
      using split by simp
    have "length full_path = length (take i full_path) + length ?c
            + length (drop (i + length ?c) full_path)"
      using arg_cong[OF split, of length] by (simp only: length_append add.assoc)
    then have ilen: "i \<le> length full_path" by simp
    have last: "\<forall>p q. full_path = p @ ?c @ q \<longrightarrow>
              (\<exists>p0. take i full_path @ ?c = p0 @ ?c \<and> length p \<le> length p0)"
    proof (intro allI impI)
      fix p q assume "full_path = p @ ?c @ q"
      then have "length p \<le> i" using rfind_last[OF i] by blast
      then have "length p \<le> length (take i full_path)" using ilen by simp
      then show "\<exists>p0. take i full_path @ ?c = p0 @ ?c \<and> length p \<le> length p0" by blast
    qed
    show ?thesis using run cat last by blast
  next
    case False
    then have nex: "\<forall>p q. full_path \<noteq> p @ ?c @ q" using contains_iff by blast
    have "fst (ComputePaths urljoin pkg ver discovery_doc w) = Inr (full_path, '''')"
      using assms False unfolding ComputePaths_def j by (simp del: append_assoc)
    then show ?thesis using nex by simp
  qed
qed

theorem C10_ComputePaths_concat_last_witness:
  "getitem (heap (doc_world [(''rootUrl'', PStr ''https://x.com/pkg/v1/''),
                 (''servicePath'', PStr ''pkg/v1/items/'')]))
      (PRef 0) ''rootUrl'' = Inr (PStr ''https://x.com/pkg/v1/'') \<and>
   getitem (heap (doc_world [(''rootUrl'', PStr ''https://x.com/pkg/v1/''),
                 (''servicePath'', PStr ''pkg/v1/items/'')]))
      (PRef 0) ''servicePath'' = Inr (PStr ''pkg/v1/items/'') \<and>
   concat_urljoin (PStr ''https://x.com/pkg/v1/'') (PStr ''pkg/v1/items/'')
     = Inr ''https://x.com/pkg/v1/pkg/v1/items/'' \<and>
   fst (ComputePaths concat_urljoin ''pkg'' ''v1'' (PRef 0)
     (doc_world [(''rootUrl'', PStr ''https://x.com/pkg/v1/''),
                 (''servicePath'', PStr ''pkg/v1/items/'')]))
   = Inr (''https://x.com/pkg/v1/pkg/v1/'', ''items/'')"
proof -
  let ?w = "doc_world [(''rootUrl'', PStr ''https://x.com/pkg/v1/''),
                 (''servicePath'', PStr ''pkg/v1/items/'')]"
  have h1: "getitem (heap ?w) (PRef 0) ''rootUrl'' = Inr (PStr ''https://x.com/pkg/v1/'')"
    by (simp add: doc_world_def getitem_def nth_opt_def)
  have h2: "getitem (heap ?w) (PRef 0) ''servicePath'' = Inr (PStr ''pkg/v1/items/'')"
    by (simp add: doc_world_def getitem_def nth_opt_def)
  have h3: "concat_urljoin (PStr ''https://x.com/pkg/v1/'') (PStr ''pkg/v1/items/'')
     = Inr ''https://x.com/pkg/v1/pkg/v1/items/''"
    by (simp add: concat_urljoin_def)
  note t = C10_ComputePaths_concat_last [where urljoin = concat_urljoin and pkg = "''pkg''"
      and ver = "''v1''", OF h1 h2 h3]
  have run: "fst (ComputePaths concat_urljoin ''pkg'' ''v1'' (PRef 0) ?w)
       = Inr (''https://x.com/pkg/v1/pkg/v1/'', ''items/'')"
    by (simp add: ComputePaths_def doc_world_def getitem_def nth_opt_def concat_urljoin_def
      rpartition_def startswith_def Let_def)
  from t h1 h2 h3 run show ?thesis by (intro conjI) assumption+
qed

subsection \<open>Steps of a computation that returns\<close>

lemma and_then_Inr:
  assumes "and_then m f w = (Inr y, w')"
  obtains x w1 where "m w = (Inr x, w1)" and "f x w1 = (Inr y, w')"
  using assms by (auto simp: and_then_def split: prod.splits sum.splits)

lemma return_Inr [simp]: "return x w = (Inr y, w') \<longleftrightarrow> y = x \<and> w' = w"
  by (auto simp: return_def)

lemma read_Inr [simp]: "read f w = (Inr x, w') \<longleftrightarrow> f (heap w) = Inr x \<and> w' = w"
  by (auto simp: read_def)

lemma call_Inr [simp]:
  "call ev res w = (Inr x, w') \<longleftrightarrow> res = Inr x \<and> w' = w\<lparr>trace := trace w @ [ev]\<rparr>"
  by (auto simp: call_def)

lemma alloc_Inr [simp]:
  "alloc obj w = (Inr x, w') \<longleftrightarrow> x = PRef (length (heap w)) \<and> w' = w\<lparr>heap := heap w @ [obj]\<rparr>"
  by (auto simp: alloc_def)

lemma client_info_at_Inr [simp]:
  "client_info_at ref w = (Inr ci, w') \<longleftrightarrow> nth_opt (infos w) ref = Some ci \<and> w' = w"
  by (auto simp: client_info_at_def split: option.splits)

lemma replace_scopes_Inr [simp]:
  "replace_scopes ref s w = (Inr n, w') \<longleftrightarrow>
     (\<exists>ci. nth_opt (infos w) ref = Some ci \<and> n = length (infos w) \<and>
        w' = w\<lparr>infos := infos w @ [ci\<lparr>scopes := s\<rparr>],
               trace := trace w @ [replace_scopes_call s]\<rparr>)"
  by (auto simp: replace_scopes_def split: option.splits)

lemma setitem_Inr [simp]:
  "setitem d k v w = (Inr u, w') \<longleftrightarrow>
     (\<exists>a kvs. d = PRef a \<and> nth_opt (heap w) a = Some (ODict kvs) \<and>
        w' = w\<lparr>heap := (heap w)[a := ODict (AList.update k v kvs)]\<rparr>)"
  by (auto simp: setitem_def split: pyval.splits option.splits pyobj.splits)

lemma for_each_Inr:
  "for_each ev f xs r w = (Inr r', w') \<Longrightarrow> w' = w\<lparr>trace := trace w @ map ev xs\<rparr>"
proof (induction xs arbitrary: r w)
  case Nil
  then show ?case by simp
next
  case (Cons x xs)
  from Cons.prems obtain r1 w1 where
    s1: "call (ev x) (f (heap w) x r) w = (Inr r1, w1)" and
    s2: "for_each ev f xs r1 w1 = (Inr r', w')"
    by (auto elim: and_then_Inr)
  from s1 have w1: "w1 = w\<lparr>trace := trace w @ [ev x]\<rparr>" by simp
  from Cons.IH[OF s2] show ?case by (simp add: w1)
qed

subsection \<open>Reading the store\<close>

lemma nth_opt_append_old [simp]: "a < length h \<Longrightarrow> nth_opt (h @ h') a = nth_opt h a"
  by (simp add: nth_opt_def nth_append)

lemma nth_opt_Some_less: "nth_opt h a = Some x \<Longrightarrow> a < length h"
  by (simp add: nth_opt_def split: if_splits)

lemma nth_opt_append_new [simp]: "nth_opt (h @ x # h') (length h) = Some x"
  by (simp add: nth_opt_def)


lemma nth_opt_append_Suc [simp]: "nth_opt (h @ x # y # h') (Suc (length h)) = Some y"
  by (simp add: nth_opt_def nth_append)

lemma nth_opt_append_Suc_Suc [simp]:
  "nth_opt (h @ x # y # z # h') (Suc (Suc (length h))) = Some z"
  by (simp add: nth_opt_def nth_append)

lemma nth_opt_update:
  "nth_opt (h[p := x]) a = (if a = p \<and> p < length h then Some x else nth_opt h a)"
  by (simp add: nth_opt_def)

subsection \<open>\<^verbatim>\<open>_StandardQueryParametersSchema\<close>\<close>

text \<open>The schema builder as an equation, without and with \<^verbatim>\<open>parameters\<close> in the document.\<close>

lemma StandardQueryParametersSchema_absent:
  assumes doc: "nth_opt (heap w) a = Some (ODict doc)"
    and absent: "map_of doc ''parameters'' = None"
  shows "StandardQueryParametersSchema TRACE_HELP (PRef a) w =
     (Inr (PRef (Suc (length (heap w)))),
      w\<lparr>heap := heap w @
            [ODict [(''trace'', PRef (Suc (Suc (length (heap w)))))],
             ODict [(''id'', PStr ''StandardQueryParameters''), (''type'', PStr ''object''),
                    (''description'', PStr ''Query parameters accepted by all methods.''),
                    (''properties'', PRef (length (heap w)))],
             ODict [(''type'', PStr ''string''), (''description'', PStr TRACE_HELP),
                    (''location'', PStr ''query'')]]\<rparr>)"
proof -
  have a: "a < length (heap w)" using doc by (rule nth_opt_Some_less)
  show ?thesis
    unfolding StandardQueryParametersSchema_def
    using a doc absent
    by (simp add: and_then_def alloc_def read_def return_def setitem_def dict_get_def
        getitem_def list_update_append)
qed

lemma StandardQueryParametersSchema_present:
  assumes doc: "nth_opt (heap w) a = Some (ODict doc)"
    and present: "map_of doc ''parameters'' = Some (PRef p)"
    and params: "nth_opt (heap w) p = Some (ODict kvs)"
  shows "StandardQueryParametersSchema TRACE_HELP (PRef a) w =
     (Inr (PRef (Suc (length (heap w)))),
      w\<lparr>heap := (heap w)[p := ODict (AList.update ''trace''
                                      (PRef (Suc (Suc (length (heap w))))) kvs)] @
            [ODict [],
             ODict [(''id'', PStr ''StandardQueryParameters''), (''type'', PStr ''object''),
                    (''description'', PStr ''Query parameters accepted by all methods.''),
                    (''properties'', PRef p)],
             ODict [(''type'', PStr ''string''), (''description'', PStr TRACE_HELP),
                    (''location'', PStr ''query'')]]\<rparr>)"
proof -
  have a: "a < length (heap w)" using doc by (rule nth_opt_Some_less)
  have p: "p < length (heap w)" using params by (rule nth_opt_Some_less)
  show ?thesis
    unfolding StandardQueryParametersSchema_def
    using a p doc present params
    by (simp add: and_then_def alloc_def read_def return_def setitem_def dict_get_def
        getitem_def list_update_append)
qed


lemma ComputePaths_Inr:
  assumes "ComputePaths urljoin pkg ver d w = (Inr x, w')"
  shows "\<exists>warning. w' = w\<lparr>trace := trace w @ warning\<rparr> \<and>
           set warning \<subseteq> range logging_warning \<and> length warning \<le> 1"
proof -
  have triv: "w = w\<lparr>trace := trace w @ []\<rparr>" by simp
  from assms have "w' = w \<or> (\<exists>msg. w' = w\<lparr>trace := trace w @ [logging_warning msg]\<rparr>)"
    unfolding ComputePaths_def Let_def
    by (auto split: sum.splits if_splits prod.splits)
  then show ?thesis
  proof
    assume "w' = w"
    then have "w' = w\<lparr>trace := trace w @ []\<rparr>" by simp
    then show ?thesis by (intro exI[of _ "[]"]) simp
  next
    assume "\<exists>msg. w' = w\<lparr>trace := trace w @ [logging_warning msg]\<rparr>"
    then obtain msg where "w' = w\<lparr>trace := trace w @ [logging_warning msg]\<rparr>" by blast
    then show ?thesis by (intro exI[of _ "[logging_warning msg]"]) simp
  qed
qed

lemma truthy_cong:
  "(\<And>m. v = PRef m \<Longrightarrow> nth_opt h' m = nth_opt h m) \<Longrightarrow> truthy h' v = truthy h v"
  by (cases v) (simp_all add: truthy_def)

lemma truthy_new_list [simp]: "truthy (h @ [x, OList []]) (PRef (Suc (length h))) = False"
  by (simp add: truthy_def)


lemma dict_get_doc:
  "nth_opt h a = Some (ODict doc) \<Longrightarrow>
   dict_get h (PRef a) k dflt = Inr (case map_of doc k of None \<Rightarrow> dflt | Some v \<Rightarrow> v)"
  by (simp add: dict_get_def split: option.splits)

lemma mapping_at_cases:
  assumes "mapping_at h doc k = Some kvs"
  obtains (absent) "map_of doc k = None" "kvs = []"
    | (present) p where "map_of doc k = Some (PRef p)" "nth_opt h p = Some (ODict kvs)"
  using assms unfolding mapping_at_def
  by (auto split: option.splits pyval.splits pyobj.splits)

lemma StandardQueryParametersSchema_eq:
  assumes doc: "nth_opt (heap w) a = Some (ODict doc)"
    and ps: "mapping_at (heap w) doc ''parameters'' = Some params"
  shows "StandardQueryParametersSchema TRACE_HELP (PRef a) w =
     (Inr (PRef (Suc (length (heap w)))),
      w\<lparr>heap := (heap w @
            [ODict [],
             ODict [(''id'', PStr ''StandardQueryParameters''), (''type'', PStr ''object''),
                    (''description'', PStr ''Query parameters accepted by all methods.''),
                    (''properties'', PRef (properties_address (length (heap w)) doc))],
             ODict [(''type'', PStr ''string''), (''description'', PStr TRACE_HELP),
                    (''location'', PStr ''query'')]])
          [properties_address (length (heap w)) doc :=
             ODict (AList.update ''trace'' (PRef (Suc (Suc (length (heap w))))) params)]\<rparr>)"
  using ps
proof (cases rule: mapping_at_cases)
  case absent
  then show ?thesis
    using StandardQueryParametersSchema_absent [OF doc absent(1), of TRACE_HELP]
    by (simp add: properties_address_def list_update_append)
next
  case (present p)
  have p: "p < length (heap w)" using present(2) by (rule nth_opt_Some_less)
  show ?thesis
    using StandardQueryParametersSchema_present [OF doc present, of TRACE_HELP] p present(1)
    by (simp add: properties_address_def list_update_append)
qed

lemma properties_address_bound:
  assumes "mapping_at h doc ''parameters'' = Some params" and "length h \<le> d"
  shows "properties_address d doc \<le> d"
  using assms(1)
proof (cases rule: mapping_at_cases)
  case absent
  then show ?thesis by (simp add: properties_address_def)
next
  case (present p)
  have "p < length h" using present(2) by (rule nth_opt_Some_less)
  then show ?thesis using present(1) assms(2) by (simp add: properties_address_def)
qed

lemma nth_opt_frame:
  "m < length h \<Longrightarrow> m \<noteq> pa \<Longrightarrow> nth_opt ((h @ e1)[pa := X] @ e2) m = nth_opt h m"
  apply (subst nth_opt_append_old)
   apply simp
  apply (simp only: nth_opt_update)
  apply simp
  done

lemma nth_opt_frame0:
  "m < length h \<Longrightarrow> m \<noteq> pa \<Longrightarrow> nth_opt ((h @ e1)[pa := X]) m = nth_opt h m"
  apply (simp only: nth_opt_update)
  apply simp
  done

lemma iteritems_mapping:
  assumes "mapping_at h doc k = Some kvs"
    and "nth_opt h' d = Some (ODict [])"
    and "\<And>p. map_of doc k = Some (PRef p) \<Longrightarrow> nth_opt h' p = nth_opt h p"
  shows "iteritems h' (case map_of doc k of None \<Rightarrow> PRef d | Some v \<Rightarrow> v) = Inr kvs"
  using assms(1)
proof (cases rule: mapping_at_cases)
  case absent
  then show ?thesis using assms(2) by (simp add: iteritems_def)
next
  case (present p)
  then show ?thesis using assms(3)[OF present(1)] by (simp add: iteritems_def)
qed

subsection \<open>\<^verbatim>\<open>DescriptorGenerator.__init__\<close>\<close>

text \<open>
  A construction that returns, on a parsed document: the generator it returns and the world
  it leaves, in full. \<open>warning\<close> is what \<^verbatim>\<open>_ComputePaths\<close> logged, if anything.
\<close>

lemma init_Inr:
  assumes run: "DescriptorGenerator_init regs urljoin TRACE_HELP (PRef a) cref names rp od up w
                  = (Inr g, w')"
    and shape: "parsed_document (heap w) a doc"
    and ps: "mapping_at (heap w) doc ''parameters'' = Some params"
    and ss: "mapping_at (heap w) doc ''schemas'' = Some schema_items"
    and rs: "mapping_at (heap w) doc ''resources'' = Some service_items"
  shows "\<exists>ci warning.
     nth_opt (infos w) cref = Some ci \<and> set warning \<subseteq> range logging_warning \<and>
     length warning \<le> 1 \<and> self_client_info g = length (infos w) \<and>
     w' = w\<lparr>heap :=
              (heap w @
               [ODict [], ODict [],
                ODict [(''id'', PStr ''StandardQueryParameters''), (''type'', PStr ''object''),
                       (''description'', PStr ''Query parameters accepted by all methods.''),
                       (''properties'', PRef (properties_address (Suc (length (heap w))) doc))],
                ODict [(''type'', PStr ''string''), (''description'', PStr TRACE_HELP),
                       (''location'', PStr ''query'')],
                ODict [], OList []])
              [properties_address (Suc (length (heap w))) doc :=
                 ODict (AList.update ''trace'' (PRef (length (heap w) + 3)) params)] @
              (if has_api_methods (heap w) doc
               then [ODict [(''methods'', the (map_of doc ''methods''))]] else []),
            infos := infos w @ [ci\<lparr>scopes := ServiceRegistry_scopes regs (self_registries g)\<rparr>],
            trace := trace w @ [DescriptorGenerator_call] @ warning @ [MessageRegistry_call] @
              map (\<lambda>(k, v). AddDescriptorFromSchema_call (PStr k) v) schema_items @
              [AddDescriptorFromSchema_call (PStr ''StandardQueryParameters'')
                 (PRef (length (heap w) + 2)),
               CommandRegistry_call, LookupDescriptorOrDie_call ''StandardQueryParameters'',
               AddGlobalParameters_call, ServiceRegistry_call] @
              map (\<lambda>(k, v). AddServiceFromResource_call k v) (sort_key fst service_items) @
              (if has_api_methods (heap w) doc
               then [AddServiceFromResource_call ''api'' (PRef (length (heap w) + 6))] else []) @
              [replace_scopes_call (ServiceRegistry_scopes regs (self_registries g))]\<rparr>"
proof -
  let ?n = "length (heap w)"
  let ?pa = "properties_address (Suc ?n) doc"
  from shape have doc: "nth_opt (heap w) a = Some (ODict doc)"
    by (simp add: parsed_document_def)
  have a: "a < ?n" using doc by (rule nth_opt_Some_less)
  have pa_le: "?pa \<le> Suc ?n" using properties_address_bound[OF ps, of "Suc ?n"] by simp
  have apart: "case map_of doc ''parameters'' of None \<Rightarrow> True
      | Some v \<Rightarrow> v \<noteq> PRef a \<and> map_of doc ''resources'' \<noteq> Some v \<and>
                 map_of doc ''methods'' \<noteq> Some v"
    using shape by (simp add: parsed_document_def)
  have meth: "case map_of doc ''methods'' of Some (PRef m) \<Rightarrow> m < ?n | _ \<Rightarrow> True"
    using shape by (simp add: parsed_document_def)
  have a_pa: "a \<noteq> ?pa"
    using apart a by (auto simp: properties_address_def split: option.splits pyval.splits)
  have r_pa: "p < ?n \<and> p \<noteq> ?pa" if "map_of doc ''resources'' = Some (PRef p)" for p
  proof -
    from rs have "p < ?n"
    proof (cases rule: mapping_at_cases)
      case absent
      then show ?thesis using that by simp
    next
      case (present q)
      then have "q = p" using that by simp
      then show ?thesis using present(2) nth_opt_Some_less by simp
    qed
    moreover have "p \<noteq> ?pa"
      using apart that \<open>p < ?n\<close>
      by (auto simp: properties_address_def split: option.splits pyval.splits)
    ultimately show ?thesis by simp
  qed
  have m_pa: "p < ?n \<and> p \<noteq> ?pa" if "map_of doc ''methods'' = Some (PRef p)" for p
  proof -
    from meth that have "p < ?n" by simp
    moreover have "p \<noteq> ?pa"
      using apart that \<open>p < ?n\<close>
      by (auto simp: properties_address_def split: option.splits pyval.splits)
    ultimately show ?thesis by simp
  qed
  have s_n: "p < ?n" if "map_of doc ''schemas'' = Some (PRef p)" for p
    using ss
  proof (cases rule: mapping_at_cases)
    case absent
    then show ?thesis using that by simp
  next
    case (present q)
    then have "q = p" using that by simp
    then show ?thesis using present(2) nth_opt_Some_less by simp
  qed
  have doc1: "nth_opt (heap w @ [ODict []]) a = Some (ODict doc)" using a doc by simp
  have ps1: "mapping_at (heap w @ [ODict []]) doc ''parameters'' = Some params"
    using ps
  proof (cases rule: mapping_at_cases)
    case absent
    then show ?thesis by (simp add: mapping_at_def)
  next
    case (present p)
    have "p < ?n" using present(2) by (rule nth_opt_Some_less)
    then show ?thesis using present by (simp add: mapping_at_def)
  qed
  let ?schema = "ODict [(''id'', PStr ''StandardQueryParameters''), (''type'', PStr ''object''),
                       (''description'', PStr ''Query parameters accepted by all methods.''),
                       (''properties'', PRef ?pa)]"
  let ?te = "ODict [(''type'', PStr ''string''), (''description'', PStr TRACE_HELP),
                       (''location'', PStr ''query'')]"
  let ?X = "ODict (AList.update ''trace'' (PRef (Suc (Suc (Suc ?n)))) params)"
  let ?H2 = "(heap w @ [ODict [], ODict [], ?schema, ?te])[?pa := ?X]"
  have len2: "length ?H2 = Suc (Suc (Suc (Suc ?n)))" by simp
  have f1: "iteritems (heap w @ [ODict []])
      (case map_of doc ''schemas'' of None \<Rightarrow> PRef ?n | Some v \<Rightarrow> v) = Inr schema_items"
    by (rule iteritems_mapping [OF ss]) (simp_all add: s_n)
  have "nth_opt ?H2 (Suc (Suc ?n)) = Some ?schema"
    using pa_le by (simp add: nth_opt_def nth_append)
  then have f2: "getitem ?H2 (PRef (Suc (Suc ?n))) ''id'' = Inr (PStr ''StandardQueryParameters'')"
    by (simp add: getitem_def)
  have f3: "iteritems (?H2 @ [ODict []])
      (case map_of doc ''resources'' of None \<Rightarrow> PRef (Suc (Suc (Suc (Suc ?n)))) | Some v \<Rightarrow> v)
      = Inr service_items"
  proof (rule iteritems_mapping [OF rs])
    show "nth_opt (?H2 @ [ODict []]) (Suc (Suc (Suc (Suc ?n)))) = Some (ODict [])"
      using nth_opt_append_new [of ?H2 "ODict []" "[]"] by (simp only: len2)
  next
    fix p assume "map_of doc ''resources'' = Some (PRef p)"
    then have "p < ?n \<and> p \<noteq> ?pa" by (rule r_pa)
    then show "nth_opt (?H2 @ [ODict []]) p = nth_opt (heap w) p"
      by (simp add: nth_opt_frame nth_opt_frame0)
  qed
  have f4: "truthy (?H2 @ [ODict [], OList []])
      (case map_of doc ''methods'' of None \<Rightarrow> PRef (Suc (Suc (Suc (Suc (Suc ?n))))) | Some v \<Rightarrow> v)
      = has_api_methods (heap w) doc"
  proof (cases "map_of doc ''methods''")
    case None
    have "truthy (?H2 @ [ODict [], OList []]) (PRef (Suc (length ?H2))) = False"
      by (rule truthy_new_list)
    then show ?thesis using None by (simp add: has_api_methods_def)
  next
    case (Some v)
    have "truthy (?H2 @ [ODict [], OList []]) v = truthy (heap w) v"
    proof (rule truthy_cong)
      fix m assume "v = PRef m"
      then have "m < ?n \<and> m \<noteq> ?pa" using Some m_pa by simp
      then show "nth_opt (?H2 @ [ODict [], OList []]) m = nth_opt (heap w) m"
        by (simp add: nth_opt_frame nth_opt_frame0)
    qed
    then show ?thesis using Some by (simp add: has_api_methods_def)
  qed
  have f5: "(heap w @ [ODict [], ODict [], ?schema, ?te, ODict [], OList []])[?pa := ?X]
      = ?H2 @ [ODict [], OList []]"
  proof -
    have "?pa < length (heap w @ [ODict [], ODict [], ?schema, ?te])" using pa_le by simp
    then have "((heap w @ [ODict [], ODict [], ?schema, ?te]) @ [ODict [], OList []])[?pa := ?X]
      = ?H2 @ [ODict [], OList []]"
      by (rule list_update_append1)
    then show ?thesis by simp
  qed
  note sqp = StandardQueryParametersSchema_eq [where doc = doc and a = a and params = params]
  show ?thesis
  proof (cases "has_api_methods (heap w) doc")
    case True
    then obtain v where v: "map_of doc ''methods'' = Some v"
      by (auto simp: has_api_methods_def split: option.splits)
    have f4v: "truthy (?H2 @ [ODict [], OList []]) v" using f4 True v by simp
    from run show ?thesis
      unfolding DescriptorGenerator_init_def Let_def case_prod_beta
      apply (elim and_then_Inr)
      apply (clarsimp dest!: for_each_Inr)
      apply (drule ComputePaths_Inr)
      using a doc ps1 pa_le a_pa True v
      apply (clarsimp dest!: for_each_Inr simp: sqp dict_get_doc f1 f2 f3 f4v f5
          nth_opt_frame nth_opt_frame0)
      apply (erule and_then_Inr)
      apply (clarsimp dest!: for_each_Inr simp: case_prod_beta)
      apply (rule_tac x = warning in exI)
      apply (simp add: f5 eval_nat_numeral)
      done
  next
    case False
    from run show ?thesis
      unfolding DescriptorGenerator_init_def Let_def case_prod_beta
      apply (elim and_then_Inr)
      apply (clarsimp dest!: for_each_Inr)
      apply (drule ComputePaths_Inr)
      using a doc ps1 pa_le a_pa False
      apply (clarsimp dest!: for_each_Inr simp: sqp dict_get_doc f1 f2 f3 f4 f5
          nth_opt_frame nth_opt_frame0 case_prod_beta)
      apply (rule_tac x = warning in exI)
      apply (simp add: f5 eval_nat_numeral)
      done
  qed
qed

subsection \<open>The example\<close>

text \<open>The construction on the example document returns, with the generator and the world
  written out above.\<close>

lemma example_construction_eq:
  "example_construction = (Inr example_generator, example_world_after)"
  by code_simp

lemma example_parsed: "parsed_document (heap example_world) 0 example_document"
  by (simp add: parsed_document_def example_world_def example_heap_def example_document_def
      mapping_at_def nth_opt_def)

lemma example_mappings:
  "mapping_at (heap example_world) example_document ''parameters'' = Some [(''fields'', PRef 5)]"
  "mapping_at (heap example_world) example_document ''schemas''
     = Some [(''Item'', PRef 6), (''Bucket'', PRef 7)]"
  "mapping_at (heap example_world) example_document ''resources''
     = Some [(''items'', PRef 8), (''buckets'', PRef 9)]"
  by (simp_all add: example_world_def example_heap_def example_document_def
      mapping_at_def nth_opt_def)

lemma parsed_document_parameters:
  assumes "parsed_document h a doc"
  obtains params where "mapping_at h doc ''parameters'' = Some params"
  using assms by (auto simp: parsed_document_def)

subsection \<open>The standard-query-parameters schema\<close>

text \<open>
  Claim C2. For a document whose \<^verbatim>\<open>parameters\<close> entry is absent or a dict of the store, with
  entries \<open>params\<close> (none when absent): \<^verbatim>\<open>_StandardQueryParametersSchema\<close> returns a dict with id
  \<^verbatim>\<open>StandardQueryParameters\<close> and type \<^verbatim>\<open>object\<close> whose \<^verbatim>\<open>properties\<close> is a dict equal, as a
  mapping, to \<open>params\<close> with \<^verbatim>\<open>trace\<close> set to a new object (so replacing a parameter of that
  name), and that object has type \<^verbatim>\<open>string\<close> and location \<^verbatim>\<open>query\<close>.
\<close>

theorem C2_StandardQueryParametersSchema:
  assumes doc: "nth_opt (heap w) a = Some (ODict doc)"
    and ps: "mapping_at (heap w) doc ''parameters'' = Some params"
  shows "\<exists>s p t props w'.
     StandardQueryParametersSchema TRACE_HELP (PRef a) w = (Inr (PRef s), w') \<and>
     getitem (heap w') (PRef s) ''id'' = Inr (PStr ''StandardQueryParameters'') \<and>
     getitem (heap w') (PRef s) ''type'' = Inr (PStr ''object'') \<and>
     getitem (heap w') (PRef s) ''properties'' = Inr (PRef p) \<and>
     nth_opt (heap w') p = Some (ODict props) \<and>
     map_of props = (map_of params)(''trace'' \<mapsto> PRef t) \<and>
     length (heap w) \<le> t \<and>
     nth_opt (heap w') t =
       Some (ODict [(''type'', PStr ''string''), (''description'', PStr TRACE_HELP),
                    (''location'', PStr ''query'')])"
proof -
  let ?n = "length (heap w)"
  let ?pa = "properties_address ?n doc"
  let ?schema = "ODict [(''id'', PStr ''StandardQueryParameters''), (''type'', PStr ''object''),
                    (''description'', PStr ''Query parameters accepted by all methods.''),
                    (''properties'', PRef ?pa)]"
  let ?te = "ODict [(''type'', PStr ''string''), (''description'', PStr TRACE_HELP),
                    (''location'', PStr ''query'')]"
  let ?props = "AList.update ''trace'' (PRef (Suc (Suc ?n))) params"
  let ?H = "(heap w @ [ODict [], ?schema, ?te])[?pa := ODict ?props]"
  let ?w' = "w\<lparr>heap := ?H\<rparr>"
  have run: "StandardQueryParametersSchema TRACE_HELP (PRef a) w = (Inr (PRef (Suc ?n)), ?w')"
    by (rule StandardQueryParametersSchema_eq [OF doc ps])
  have pa_le: "?pa \<le> ?n" using properties_address_bound [OF ps, of ?n] by simp
  have s: "nth_opt ?H (Suc ?n) = Some ?schema"
    using pa_le by (simp add: nth_opt_update)
  have t: "nth_opt ?H (Suc (Suc ?n)) = Some ?te"
    using pa_le by (simp add: nth_opt_update)
  have p: "nth_opt ?H ?pa = Some (ODict ?props)"
    using pa_le by (simp add: nth_opt_def)
  have m: "map_of ?props = (map_of params)(''trace'' \<mapsto> PRef (Suc (Suc ?n)))"
    by (rule update_conv')
  have g1: "getitem (heap ?w') (PRef (Suc ?n)) ''id'' = Inr (PStr ''StandardQueryParameters'')"
    using s by (simp add: getitem_def)
  have g2: "getitem (heap ?w') (PRef (Suc ?n)) ''type'' = Inr (PStr ''object'')"
    using s by (simp add: getitem_def)
  have g3: "getitem (heap ?w') (PRef (Suc ?n)) ''properties'' = Inr (PRef ?pa)"
    using s by (simp add: getitem_def)
  have p': "nth_opt (heap ?w') ?pa = Some (ODict ?props)" using p by simp
  have t': "nth_opt (heap ?w') (Suc (Suc ?n)) = Some ?te" using t by simp
  have le: "?n \<le> Suc (Suc ?n)" by simp
  from run g1 g2 g3 p' m le t' show ?thesis by blast
qed

theorem C2_StandardQueryParametersSchema_witness:
  "nth_opt (heap example_world) 0 = Some (ODict example_document) \<and>
   mapping_at (heap example_world) example_document ''parameters'' = Some [(''fields'', PRef 5)] \<and>
   fst (StandardQueryParametersSchema ''A trace token.'' (PRef 0) example_world)
     = Inr (PRef 12) \<and>
   nth_opt (heap (snd (StandardQueryParametersSchema ''A trace token.'' (PRef 0) example_world)))
     12 = Some (ODict [(''id'', PStr ''StandardQueryParameters''), (''type'', PStr ''object''),
                       (''description'', PStr ''Query parameters accepted by all methods.''),
                       (''properties'', PRef 1)]) \<and>
   nth_opt (heap (snd (StandardQueryParametersSchema ''A trace token.'' (PRef 0) example_world)))
     1 = Some (ODict [(''fields'', PRef 5), (''trace'', PRef 13)])"
proof -
  have h1: "nth_opt (heap example_world) 0 = Some (ODict example_document)"
    by (simp add: example_world_def example_heap_def nth_opt_def)
  note h2 = example_mappings(1)
  note t = C2_StandardQueryParametersSchema [OF h1 h2, of "''A trace token.''"]
  have r1: "fst (StandardQueryParametersSchema ''A trace token.'' (PRef 0) example_world)
     = Inr (PRef 12)"
    by code_simp
  have r2: "nth_opt (heap (snd (StandardQueryParametersSchema ''A trace token.'' (PRef 0)
        example_world))) 12
     = Some (ODict [(''id'', PStr ''StandardQueryParameters''), (''type'', PStr ''object''),
                       (''description'', PStr ''Query parameters accepted by all methods.''),
                       (''properties'', PRef 1)])"
    by code_simp
  have r3: "nth_opt (heap (snd (StandardQueryParametersSchema ''A trace token.'' (PRef 0)
        example_world))) 1
     = Some (ODict [(''fields'', PRef 5), (''trace'', PRef 13)])"
    by code_simp
  from t h1 h2 r1 r2 r3 show ?thesis by (intro conjI) assumption+
qed

text \<open>
  Claim C7 says that after the construction the document is the mapping that was passed
  in. On the example it is not: the document's \<^verbatim>\<open>parameters\<close> dict, at address 1, has the
  one entry \<^verbatim>\<open>fields\<close> before the construction and the two entries \<^verbatim>\<open>fields\<close> and \<^verbatim>\<open>trace\<close>
  after it, and the generator's \<^verbatim>\<open>discovery_doc\<close> is that same document. The schema builder
  takes the document's own dict as the schema's \<^verbatim>\<open>properties\<close> and assigns into it; only a
  document without \<^verbatim>\<open>parameters\<close> gets a dict of its own.
\<close>

theorem C7_document_modified:
  "getitem (heap example_world) (PRef 0) ''parameters'' = Inr (PRef 1) \<and>
   nth_opt (heap example_world) 1 = Some (ODict [(''fields'', PRef 5)]) \<and>
   example_construction = (Inr example_generator, example_world_after) \<and>
   self_discovery_doc example_generator = PRef 0 \<and>
   getitem (heap example_world_after) (PRef 0) ''parameters'' = Inr (PRef 1) \<and>
   nth_opt (heap example_world_after) 1
     = Some (ODict [(''fields'', PRef 5), (''trace'', PRef 14)])"
proof -
  have 1: "getitem (heap example_world) (PRef 0) ''parameters'' = Inr (PRef 1)"
    by (simp add: getitem_def example_world_def example_heap_def example_document_def
        nth_opt_def)
  have 2: "nth_opt (heap example_world) 1 = Some (ODict [(''fields'', PRef 5)])"
    by (simp add: example_world_def example_heap_def nth_opt_def)
  have 3: "self_discovery_doc example_generator = PRef 0"
    by (simp add: example_generator_def)
  have 4: "getitem (heap example_world_after) (PRef 0) ''parameters'' = Inr (PRef 1)"
    by (simp add: getitem_def example_world_after_def example_document_def nth_opt_def)
  have 5: "nth_opt (heap example_world_after) 1
     = Some (ODict [(''fields'', PRef 5), (''trace'', PRef 14)])"
    by (simp add: example_world_after_def nth_opt_def)
  from 1 2 example_construction_eq 3 4 5 show ?thesis by (intro conjI) assumption+
qed

subsection \<open>The order of construction\<close>

text \<open>
  Claim C3. A construction that returns, on a parsed document, has done this and nothing
  else, in this order: entered the constructor, logged at most a warning, created the
  message registry, registered every schema of the document's \<^verbatim>\<open>schemas\<close> in iteration
  order, registered the schema \<^verbatim>\<open>StandardQueryParameters\<close> that it built, created the command
  registry, looked the descriptor of \<^verbatim>\<open>StandardQueryParameters\<close> up and seeded the command
  registry with it, created the service registry, added every resource of \<^verbatim>\<open>resources\<close>
  in the order of their names, added at most the \<^verbatim>\<open>api\<close> service, and replaced the scopes.
  No service is added before \<^verbatim>\<open>StandardQueryParameters\<close> is registered.
\<close>

theorem C3_construction_order:
  assumes run: "DescriptorGenerator_init regs urljoin TRACE_HELP (PRef a) client_info names
                  root_package out_dir use_proto2 w = (Inr g, w')"
    and shape: "parsed_document (heap w) a doc"
    and ss: "mapping_at (heap w) doc ''schemas'' = Some schema_items"
    and rs: "mapping_at (heap w) doc ''resources'' = Some service_items"
  shows "\<exists>before api new_scopes.
     trace w' = trace w @ before @
       map (\<lambda>(k, v). AddDescriptorFromSchema_call (PStr k) v) schema_items @
       [AddDescriptorFromSchema_call (PStr ''StandardQueryParameters'')
          (PRef (length (heap w) + 2)),
        CommandRegistry_call, LookupDescriptorOrDie_call ''StandardQueryParameters'',
        AddGlobalParameters_call, ServiceRegistry_call] @
       map (\<lambda>(k, v). AddServiceFromResource_call k v) (sort_key fst service_items) @
       api @ [replace_scopes_call new_scopes] \<and>
     (\<exists>warning. before = [DescriptorGenerator_call] @ warning @ [MessageRegistry_call] \<and>
        set warning \<subseteq> range logging_warning) \<and>
     (api = [] \<or> api = [AddServiceFromResource_call ''api'' (PRef (length (heap w) + 6))]) \<and>
     (\<forall>k v. AddServiceFromResource_call k v \<notin>
        set (before @ map (\<lambda>(k, v). AddDescriptorFromSchema_call (PStr k) v) schema_items))"
proof -
  from shape obtain params where ps: "mapping_at (heap w) doc ''parameters'' = Some params"
    by (rule parsed_document_parameters)
  from init_Inr [OF run shape ps ss rs] obtain ci warning where
    warn: "set warning \<subseteq> range logging_warning" and
    tr: "trace w' = trace w @ [DescriptorGenerator_call] @ warning @ [MessageRegistry_call] @
              map (\<lambda>(k, v). AddDescriptorFromSchema_call (PStr k) v) schema_items @
              [AddDescriptorFromSchema_call (PStr ''StandardQueryParameters'')
                 (PRef (length (heap w) + 2)),
               CommandRegistry_call, LookupDescriptorOrDie_call ''StandardQueryParameters'',
               AddGlobalParameters_call, ServiceRegistry_call] @
              map (\<lambda>(k, v). AddServiceFromResource_call k v) (sort_key fst service_items) @
              (if has_api_methods (heap w) doc
               then [AddServiceFromResource_call ''api'' (PRef (length (heap w) + 6))] else []) @
              [replace_scopes_call (ServiceRegistry_scopes regs (self_registries g))]"
    by (elim exE conjE) simp
  let ?before = "[DescriptorGenerator_call] @ warning @ [MessageRegistry_call]"
  let ?api = "if has_api_methods (heap w) doc
               then [AddServiceFromResource_call ''api'' (PRef (length (heap w) + 6))] else []"
  have 1: "trace w' = trace w @ ?before @
       map (\<lambda>(k, v). AddDescriptorFromSchema_call (PStr k) v) schema_items @
       [AddDescriptorFromSchema_call (PStr ''StandardQueryParameters'')
          (PRef (length (heap w) + 2)),
        CommandRegistry_call, LookupDescriptorOrDie_call ''StandardQueryParameters'',
        AddGlobalParameters_call, ServiceRegistry_call] @
       map (\<lambda>(k, v). AddServiceFromResource_call k v) (sort_key fst service_items) @
       ?api @ [replace_scopes_call (ServiceRegistry_scopes regs (self_registries g))]"
    using tr by simp
  have 2: "\<exists>warning'. ?before = [DescriptorGenerator_call] @ warning' @ [MessageRegistry_call] \<and>
        set warning' \<subseteq> range logging_warning"
    using warn by blast
  have 3: "?api = [] \<or> ?api = [AddServiceFromResource_call ''api'' (PRef (length (heap w) + 6))]"
    by simp
  have 4: "\<forall>k v. AddServiceFromResource_call k v \<notin>
        set (?before @ map (\<lambda>(k, v). AddDescriptorFromSchema_call (PStr k) v) schema_items)"
    using warn by auto
  from 1 2 3 4 show ?thesis by blast
qed

theorem C3_construction_order_witness:
  "DescriptorGenerator_init list_registries concat_urljoin ''A trace token.'' (PRef 0) 0 ()
       ''root'' ''out'' False example_world = (Inr example_generator, example_world_after) \<and>
   parsed_document (heap example_world) 0 example_document \<and>
   mapping_at (heap example_world) example_document ''schemas''
     = Some [(''Item'', PRef 6), (''Bucket'', PRef 7)] \<and>
   mapping_at (heap example_world) example_document ''resources''
     = Some [(''items'', PRef 8), (''buckets'', PRef 9)] \<and>
   trace example_world_after =
     [DescriptorGenerator_call, MessageRegistry_call,
      AddDescriptorFromSchema_call (PStr ''Item'') (PRef 6),
      AddDescriptorFromSchema_call (PStr ''Bucket'') (PRef 7),
      AddDescriptorFromSchema_call (PStr ''StandardQueryParameters'') (PRef 13),
      CommandRegistry_call, LookupDescriptorOrDie_call ''StandardQueryParameters'',
      AddGlobalParameters_call, ServiceRegistry_call,
      AddServiceFromResource_call ''buckets'' (PRef 9),
      AddServiceFromResource_call ''items'' (PRef 8),
      AddServiceFromResource_call ''api'' (PRef 17),
      replace_scopes_call [''buckets'', ''items'', ''api'']]"
proof -
  note run = example_construction_eq [unfolded example_construction_def]
  note t = C3_construction_order [OF run example_parsed example_mappings(2) example_mappings(3)]
  have tr: "trace example_world_after =
     [DescriptorGenerator_call, MessageRegistry_call,
      AddDescriptorFromSchema_call (PStr ''Item'') (PRef 6),
      AddDescriptorFromSchema_call (PStr ''Bucket'') (PRef 7),
      AddDescriptorFromSchema_call (PStr ''StandardQueryParameters'') (PRef 13),
      CommandRegistry_call, LookupDescriptorOrDie_call ''StandardQueryParameters'',
      AddGlobalParameters_call, ServiceRegistry_call,
      AddServiceFromResource_call ''buckets'' (PRef 9),
      AddServiceFromResource_call ''items'' (PRef 8),
      AddServiceFromResource_call ''api'' (PRef 17),
      replace_scopes_call [''buckets'', ''items'', ''api'']]"
    by (simp add: example_world_after_def)
  from t run example_parsed example_mappings(2) example_mappings(3) tr
  show ?thesis by (intro conjI) assumption+
qed

text \<open>
  Claim C4. After a construction that returns, the generator's client info is a new named
  tuple, equal to the one passed in except that its scopes are the service registry's; the
  one passed in is still in the store as it was; and the replacement is the last thing the
  construction did, and the only replacement.
\<close>

theorem C4_scopes_replaced_once:
  assumes run: "DescriptorGenerator_init regs urljoin TRACE_HELP (PRef a) client_info names
                  root_package out_dir use_proto2 w = (Inr g, w')"
    and shape: "parsed_document (heap w) a doc"
    and ss: "mapping_at (heap w) doc ''schemas'' = Some schema_items"
    and rs: "mapping_at (heap w) doc ''resources'' = Some service_items"
  shows "\<exists>ci before.
     nth_opt (infos w) client_info = Some ci \<and>
     nth_opt (infos w') (self_client_info g)
       = Some (ci\<lparr>scopes := ServiceRegistry_scopes regs (self_registries g)\<rparr>) \<and>
     self_client_info g \<noteq> client_info \<and>
     nth_opt (infos w') client_info = Some ci \<and>
     infos w' = infos w @ [ci\<lparr>scopes := ServiceRegistry_scopes regs (self_registries g)\<rparr>] \<and>
     trace w' = trace w @ before @
       [replace_scopes_call (ServiceRegistry_scopes regs (self_registries g))] \<and>
     (\<forall>s. replace_scopes_call s \<notin> set before)"
proof -
  from shape obtain params where ps: "mapping_at (heap w) doc ''parameters'' = Some params"
    by (rule parsed_document_parameters)
  let ?S = "ServiceRegistry_scopes regs (self_registries g)"
  from init_Inr [OF run shape ps ss rs] obtain ci warning where
    ci: "nth_opt (infos w) client_info = Some ci" and
    warn: "set warning \<subseteq> range logging_warning" and
    new: "self_client_info g = length (infos w)" and
    inf: "infos w' = infos w @ [ci\<lparr>scopes := ?S\<rparr>]" and
    tr: "trace w' = trace w @ [DescriptorGenerator_call] @ warning @ [MessageRegistry_call] @
              map (\<lambda>(k, v). AddDescriptorFromSchema_call (PStr k) v) schema_items @
              [AddDescriptorFromSchema_call (PStr ''StandardQueryParameters'')
                 (PRef (length (heap w) + 2)),
               CommandRegistry_call, LookupDescriptorOrDie_call ''StandardQueryParameters'',
               AddGlobalParameters_call, ServiceRegistry_call] @
              map (\<lambda>(k, v). AddServiceFromResource_call k v) (sort_key fst service_items) @
              (if has_api_methods (heap w) doc
               then [AddServiceFromResource_call ''api'' (PRef (length (heap w) + 6))] else []) @
              [replace_scopes_call ?S]"
    by (elim exE conjE) simp
  let ?before = "[DescriptorGenerator_call] @ warning @ [MessageRegistry_call] @
              map (\<lambda>(k, v). AddDescriptorFromSchema_call (PStr k) v) schema_items @
              [AddDescriptorFromSchema_call (PStr ''StandardQueryParameters'')
                 (PRef (length (heap w) + 2)),
               CommandRegistry_call, LookupDescriptorOrDie_call ''StandardQueryParameters'',
               AddGlobalParameters_call, ServiceRegistry_call] @
              map (\<lambda>(k, v). AddServiceFromResource_call k v) (sort_key fst service_items) @
              (if has_api_methods (heap w) doc
               then [AddServiceFromResource_call ''api'' (PRef (length (heap w) + 6))] else [])"
  have old: "client_info < length (infos w)" using ci by (rule nth_opt_Some_less)
  have 1: "nth_opt (infos w') (self_client_info g) = Some (ci\<lparr>scopes := ?S\<rparr>)"
    by (simp add: new inf)
  have 2: "self_client_info g \<noteq> client_info" using old new by simp
  have 3: "nth_opt (infos w') client_info = Some ci" using old ci by (simp add: inf)
  have 4: "trace w' = trace w @ ?before @ [replace_scopes_call ?S]" using tr by simp
  have 5: "\<forall>s. replace_scopes_call s \<notin> set ?before" using warn by auto
  from ci 1 2 3 inf 4 5 show ?thesis by blast
qed

theorem C4_scopes_replaced_once_witness:
  "DescriptorGenerator_init list_registries concat_urljoin ''A trace token.'' (PRef 0) 0 ()
       ''root'' ''out'' False example_world = (Inr example_generator, example_world_after) \<and>
   parsed_document (heap example_world) 0 example_document \<and>
   mapping_at (heap example_world) example_document ''schemas''
     = Some [(''Item'', PRef 6), (''Bucket'', PRef 7)] \<and>
   mapping_at (heap example_world) example_document ''resources''
     = Some [(''items'', PRef 8), (''buckets'', PRef 9)] \<and>
   self_client_info example_generator = 1 \<and>
   infos example_world_after =
     [example_info, example_info\<lparr>scopes := [''buckets'', ''items'', ''api'']\<rparr>] \<and>
   ServiceRegistry_scopes list_registries (self_registries example_generator)
     = [''buckets'', ''items'', ''api'']"
proof -
  note run = example_construction_eq [unfolded example_construction_def]
  note t = C4_scopes_replaced_once
    [OF run example_parsed example_mappings(2) example_mappings(3)]
  have a: "self_client_info example_generator = 1" by (simp add: example_generator_def)
  have b: "infos example_world_after =
     [example_info, example_info\<lparr>scopes := [''buckets'', ''items'', ''api'']\<rparr>]"
    by (simp add: example_world_after_def)
  have c: "ServiceRegistry_scopes list_registries (self_registries example_generator)
     = [''buckets'', ''items'', ''api'']"
    by (simp add: example_generator_def list_registries_def)
  from t run example_parsed example_mappings(2) example_mappings(3) a b c
  show ?thesis by (intro conjI) assumption+
qed

text \<open>
  Claim C6. For a document whose top-level \<^verbatim>\<open>methods\<close> is absent or a dict or list of the
  store: a construction that returns has added a service \<^verbatim>\<open>api\<close> for a new dict with the single
  entry \<^verbatim>\<open>methods\<close>, the document's top-level methods, exactly when that entry is present and
  not empty; it did so after the last resource and before replacing the scopes; and no
  service was added before the resources.
\<close>

theorem C6_api_service:
  assumes run: "DescriptorGenerator_init regs urljoin TRACE_HELP (PRef a) client_info names
                  root_package out_dir use_proto2 w = (Inr g, w')"
    and shape: "parsed_document (heap w) a doc"
    and ss: "mapping_at (heap w) doc ''schemas'' = Some schema_items"
    and rs: "mapping_at (heap w) doc ''resources'' = Some service_items"
    and container: "map_of doc ''methods'' = None \<or> (\<exists>m. map_of doc ''methods'' = Some (PRef m))"
  shows "\<exists>before new_scopes.
     trace w' = trace w @ before @
       map (\<lambda>(k, v). AddServiceFromResource_call k v) (sort_key fst service_items) @
       (case top_level_methods (heap w) doc of
          None \<Rightarrow> []
        | Some api_methods \<Rightarrow>
            [AddServiceFromResource_call ''api'' (PRef (length (heap w) + 6))]) @
       [replace_scopes_call new_scopes] \<and>
     (\<forall>k v. AddServiceFromResource_call k v \<notin> set before) \<and>
     (case top_level_methods (heap w) doc of
        None \<Rightarrow> length (heap w') = length (heap w) + 6
      | Some api_methods \<Rightarrow>
          nth_opt (heap w') (length (heap w) + 6) = Some (ODict [(''methods'', api_methods)]))"
proof -
  from shape obtain params where ps: "mapping_at (heap w) doc ''parameters'' = Some params"
    by (rule parsed_document_parameters)
  let ?n = "length (heap w)"
  let ?S = "ServiceRegistry_scopes regs (self_registries g)"
  have meth: "case map_of doc ''methods'' of Some (PRef m) \<Rightarrow> m < ?n | _ \<Rightarrow> True"
    using shape by (simp add: parsed_document_def)
  have P: "top_level_methods (heap w) doc =
      (if has_api_methods (heap w) doc then map_of doc ''methods'' else None)"
    using container
  proof
    assume "map_of doc ''methods'' = None"
    then show ?thesis by (simp add: has_api_methods_def top_level_methods_def)
  next
    assume "\<exists>m. map_of doc ''methods'' = Some (PRef m)"
    then obtain m where m: "map_of doc ''methods'' = Some (PRef m)" by blast
    then have "m < ?n" using meth by simp
    then obtain obj where obj: "nth_opt (heap w) m = Some obj" by (simp add: nth_opt_def)
    show ?thesis using m obj
      by (cases obj) (auto simp: has_api_methods_def truthy_def top_level_methods_def)
  qed
  from init_Inr [OF run shape ps ss rs] obtain ci warning where
    warn: "set warning \<subseteq> range logging_warning" and
    w': "w' = w\<lparr>heap :=
              (heap w @
               [ODict [], ODict [],
                ODict [(''id'', PStr ''StandardQueryParameters''), (''type'', PStr ''object''),
                       (''description'', PStr ''Query parameters accepted by all methods.''),
                       (''properties'', PRef (properties_address (Suc ?n) doc))],
                ODict [(''type'', PStr ''string''), (''description'', PStr TRACE_HELP),
                       (''location'', PStr ''query'')],
                ODict [], OList []])
              [properties_address (Suc ?n) doc :=
                 ODict (AList.update ''trace'' (PRef (?n + 3)) params)] @
              (if has_api_methods (heap w) doc
               then [ODict [(''methods'', the (map_of doc ''methods''))]] else []),
            infos := infos w @ [ci\<lparr>scopes := ?S\<rparr>],
            trace := trace w @ [DescriptorGenerator_call] @ warning @ [MessageRegistry_call] @
              map (\<lambda>(k, v). AddDescriptorFromSchema_call (PStr k) v) schema_items @
              [AddDescriptorFromSchema_call (PStr ''StandardQueryParameters'') (PRef (?n + 2)),
               CommandRegistry_call, LookupDescriptorOrDie_call ''StandardQueryParameters'',
               AddGlobalParameters_call, ServiceRegistry_call] @
              map (\<lambda>(k, v). AddServiceFromResource_call k v) (sort_key fst service_items) @
              (if has_api_methods (heap w) doc
               then [AddServiceFromResource_call ''api'' (PRef (?n + 6))] else []) @
              [replace_scopes_call ?S]\<rparr>"
    by (elim exE conjE)
  let ?before = "[DescriptorGenerator_call] @ warning @ [MessageRegistry_call] @
              map (\<lambda>(k, v). AddDescriptorFromSchema_call (PStr k) v) schema_items @
              [AddDescriptorFromSchema_call (PStr ''StandardQueryParameters'') (PRef (?n + 2)),
               CommandRegistry_call, LookupDescriptorOrDie_call ''StandardQueryParameters'',
               AddGlobalParameters_call, ServiceRegistry_call]"
  have some: "has_api_methods (heap w) doc \<Longrightarrow> \<exists>v. map_of doc ''methods'' = Some v"
    by (auto simp: has_api_methods_def split: option.splits)
  have 1: "trace w' = trace w @ ?before @
       map (\<lambda>(k, v). AddServiceFromResource_call k v) (sort_key fst service_items) @
       (case top_level_methods (heap w) doc of
          None \<Rightarrow> []
        | Some api_methods \<Rightarrow> [AddServiceFromResource_call ''api'' (PRef (?n + 6))]) @
       [replace_scopes_call ?S]"
    using some by (auto simp: w' P)
  have 2: "\<forall>k v. AddServiceFromResource_call k v \<notin> set ?before" using warn by auto
  have 3: "case top_level_methods (heap w) doc of
        None \<Rightarrow> length (heap w') = ?n + 6
      | Some api_methods \<Rightarrow>
          nth_opt (heap w') (?n + 6) = Some (ODict [(''methods'', api_methods)])"
    using some by (auto simp: w' P nth_opt_def nth_append)
  from 1 2 3 show ?thesis by blast
qed

theorem C6_api_service_witness:
  "DescriptorGenerator_init list_registries concat_urljoin ''A trace token.'' (PRef 0) 0 ()
       ''root'' ''out'' False example_world = (Inr example_generator, example_world_after) \<and>
   parsed_document (heap example_world) 0 example_document \<and>
   mapping_at (heap example_world) example_document ''schemas''
     = Some [(''Item'', PRef 6), (''Bucket'', PRef 7)] \<and>
   mapping_at (heap example_world) example_document ''resources''
     = Some [(''items'', PRef 8), (''buckets'', PRef 9)] \<and>
   map_of example_document ''methods'' = Some (PRef 4) \<and>
   top_level_methods (heap example_world) example_document = Some (PRef 4) \<and>
   nth_opt (heap example_world_after) 17 = Some (ODict [(''methods'', PRef 4)]) \<and>
   service_names (self_registries example_generator) = [''buckets'', ''items'', ''api'']"
proof -
  note run = example_construction_eq [unfolded example_construction_def]
  have m: "map_of example_document ''methods'' = Some (PRef 4)"
    by (simp add: example_document_def)
  then have c: "map_of example_document ''methods'' = None \<or>
      (\<exists>m. map_of example_document ''methods'' = Some (PRef m))"
    by simp
  note t = C6_api_service [OF run example_parsed example_mappings(2) example_mappings(3) c]
  have a: "top_level_methods (heap example_world) example_document = Some (PRef 4)"
    by (simp add: top_level_methods_def example_document_def example_world_def
        example_heap_def nth_opt_def)
  have b: "nth_opt (heap example_world_after) 17 = Some (ODict [(''methods'', PRef 4)])"
    by (simp add: example_world_after_def nth_opt_def)
  have d: "service_names (self_registries example_generator) = [''buckets'', ''items'', ''api'']"
    by (simp add: example_generator_def)
  from t run example_parsed example_mappings(2) example_mappings(3) m a b d
  show ?thesis by (intro conjI) assumption+
qed

subsection \<open>The command line\<close>

text \<open>
  Claim C9. When \<^verbatim>\<open>--discovery_url\<close> is given and the fetch raises \<^verbatim>\<open>CommunicationError\<close>,
  \<^verbatim>\<open>_GetCodegenFromFlags\<close> returns \<^verbatim>\<open>None\<close> having called the fetch once and nothing else: no
  names, client info, registry or generator is made. \<^verbatim>\<open>GenerateClient.Run\<close> then logs one
  error and returns 128, which is not zero, without writing any file.
\<close>

theorem C9_fetch_failure:
  assumes url: "discovery_url (FLAGS w) \<noteq> []"
    and failed: "FetchDiscoveryDoc env (discovery_url (FLAGS w)) (heap w) = Inl CommunicationError"
  shows "GetCodegenFromFlags env regs urljoin TRACE_HELP w =
           (Inr None, w\<lparr>trace := trace w @ [FetchDiscoveryDoc_call (discovery_url (FLAGS w))]\<rparr>) \<and>
         GenerateClient_Run env regs urljoin TRACE_HELP WriteGeneratedFiles WriteInit w =
           (Inr (Some 128),
            w\<lparr>trace := trace w @
               [FetchDiscoveryDoc_call (discovery_url (FLAGS w)),
                logging_error ''Failed to create codegen, exiting.'']\<rparr>) \<and>
         (128 :: int) \<noteq> 0"
proof -
  have get: "GetCodegenFromFlags env regs urljoin TRACE_HELP w =
           (Inr None, w\<lparr>trace := trace w @ [FetchDiscoveryDoc_call (discovery_url (FLAGS w))]\<rparr>)"
    using url failed by (simp add: GetCodegenFromFlags_def load_document_def)
  have "GenerateClient_Run env regs urljoin TRACE_HELP WriteGeneratedFiles WriteInit w =
           (Inr (Some 128),
            w\<lparr>trace := trace w @
               [FetchDiscoveryDoc_call (discovery_url (FLAGS w)),
                logging_error ''Failed to create codegen, exiting.'']\<rparr>)"
    by (simp add: GenerateClient_Run_def and_then_def get call_def return_def)
  with get show ?thesis by simp
qed

theorem C9_fetch_failure_witness:
  "discovery_url (FLAGS (example_cli_world (example_flags\<lparr>discovery_url := ''https://x.com/d''\<rparr>)))
     \<noteq> [] \<and>
   FetchDiscoveryDoc example_environment ''https://x.com/d''
     (heap (example_cli_world (example_flags\<lparr>discovery_url := ''https://x.com/d''\<rparr>)))
     = Inl CommunicationError \<and>
   fst (GenerateClient_Run example_environment list_registries concat_urljoin ''A trace token.''
     (\<lambda>g. return ()) (\<lambda>g. return ())
     (example_cli_world (example_flags\<lparr>discovery_url := ''https://x.com/d''\<rparr>)))
     = Inr (Some 128) \<and>
   trace (snd (GenerateClient_Run example_environment list_registries concat_urljoin
     ''A trace token.'' (\<lambda>g. return ()) (\<lambda>g. return ())
     (example_cli_world (example_flags\<lparr>discovery_url := ''https://x.com/d''\<rparr>))))
     = [FetchDiscoveryDoc_call ''https://x.com/d'',
        logging_error ''Failed to create codegen, exiting.'']"
proof -
  let ?w = "example_cli_world (example_flags\<lparr>discovery_url := ''https://x.com/d''\<rparr>)"
  have u: "discovery_url (FLAGS ?w) = ''https://x.com/d''"
    by (simp add: example_cli_world_def example_flags_def)
  have h1: "discovery_url (FLAGS ?w) \<noteq> []" by (simp add: u)
  have h2': "FetchDiscoveryDoc example_environment ''https://x.com/d'' (heap ?w)
     = Inl CommunicationError"
    by (simp add: example_environment_def)
  then have h2: "FetchDiscoveryDoc example_environment (discovery_url (FLAGS ?w)) (heap ?w)
     = Inl CommunicationError"
    by (simp only: u)
  note t = C9_fetch_failure [where regs = list_registries and urljoin = concat_urljoin
      and TRACE_HELP = "''A trace token.''" and WriteGeneratedFiles = "\<lambda>g. return ()"
      and WriteInit = "\<lambda>g. return ()", OF h1 h2]
  from t have run: "GenerateClient_Run example_environment list_registries concat_urljoin
     ''A trace token.'' (\<lambda>g. return ()) (\<lambda>g. return ()) ?w =
           (Inr (Some 128),
            ?w\<lparr>trace := trace ?w @
               [FetchDiscoveryDoc_call (discovery_url (FLAGS ?w)),
                logging_error ''Failed to create codegen, exiting.'']\<rparr>)"
    by (elim conjE)
  have r1: "fst (GenerateClient_Run example_environment list_registries concat_urljoin
     ''A trace token.'' (\<lambda>g. return ()) (\<lambda>g. return ()) ?w) = Inr (Some 128)"
    by (simp only: run fst_conv)
  have r2: "trace (snd (GenerateClient_Run example_environment list_registries concat_urljoin
     ''A trace token.'' (\<lambda>g. return ()) (\<lambda>g. return ()) ?w))
     = [FetchDiscoveryDoc_call ''https://x.com/d'',
        logging_error ''Failed to create codegen, exiting.'']"
    by (simp add: run u) (simp add: example_cli_world_def)
  from h1 h2' r1 r2 show ?thesis by (intro conjI) assumption+
qed


text \<open>
  Claim C8. Once the document is loaded and the names and the client info are made, the
  output directory is the expanded \<^verbatim>\<open>--outdir\<close>, or the client's default directory when that
  is empty. If it exists and \<^verbatim>\<open>--overwrite\<close> is not set, \<^verbatim>\<open>_GetCodegenFromFlags\<close> raises
  \<^verbatim>\<open>ConfigurationValueError\<close> at once: the package is not looked up and no generator is
  constructed. Otherwise the check raises nothing, and the result is that of the package
  lookup and of the construction that follow it.
\<close>

theorem C8_output_directory_exists:
  assumes src: "(if discovery_url (FLAGS w) \<noteq> []
                 then load_document (FetchDiscoveryDoc_call (discovery_url (FLAGS w)))
                        (FetchDiscoveryDoc env (discovery_url (FLAGS w))) w
                 else load_document
                        (json_load_call (str_or (expanduser env (infile (FLAGS w))) ''/dev/stdin''))
                        (json_load_open env
                           (str_or (expanduser env (infile (FLAGS w))) ''/dev/stdin'')) w)
                = (Inr discovery_doc, w1)"
    and names: "Names env (strip_prefix (FLAGS w)) (experimental_name_convention (FLAGS w))
                  (experimental_capitalize_enums (FLAGS w)) = Inr names"
    and ci: "ClientInfo_Create env (heap w1) discovery_doc (scope (FLAGS w)) (client_id (FLAGS w))
               (client_secret (FLAGS w)) (user_agent (FLAGS w)) names (api_key (FLAGS w)) = Inr ci"
    and dir: "dir = str_or (expanduser env (outdir (FLAGS w))) (default_directory ci)"
    and pkg_dir: "pkg_dir = abspath env (if root_package_dir (FLAGS w) = [] then dir
                                       else root_package_dir (FLAGS w))"
  shows "if path_exists env dir \<and> \<not> overwrite (FLAGS w)
         then GetCodegenFromFlags env regs urljoin TRACE_HELP w =
                (Inl (ConfigurationValueError output_directory_exists),
                 w1\<lparr>infos := infos w1 @ [ci],
                    trace := trace w1 @ [Names_call, ClientInfo_Create_call]\<rparr>)
         else GetCodegenFromFlags env regs urljoin TRACE_HELP w =
                (case GetPackage env pkg_dir of
                   Inl e \<Rightarrow>
                     (Inl e,
                      w1\<lparr>infos := infos w1 @ [ci],
                         FLAGS := (FLAGS w)\<lparr>root_package_dir := pkg_dir\<rparr>,
                         trace := trace w1 @
                           [Names_call, ClientInfo_Create_call, GetPackage_call pkg_dir]\<rparr>)
                 | Inr root_package \<Rightarrow>
                     (case DescriptorGenerator_init regs urljoin TRACE_HELP discovery_doc
                             (length (infos w1)) names root_package dir
                             (experimental_proto2_output (FLAGS w))
                             (w1\<lparr>infos := infos w1 @ [ci],
                                FLAGS := (FLAGS w)\<lparr>root_package_dir := pkg_dir\<rparr>,
                                trace := trace w1 @
                                  [Names_call, ClientInfo_Create_call, GetPackage_call pkg_dir]\<rparr>) of
                        (Inl e, w3) \<Rightarrow> (Inl e, w3)
                      | (Inr generator, w3) \<Rightarrow> (Inr (Some generator), w3)))"
proof -
  have F1: "FLAGS w1 = FLAGS w"
    using src by (auto simp: load_document_def split: if_splits sum.splits)
  let ?load = "if discovery_url (FLAGS w) \<noteq> []
           then (case load_document (FetchDiscoveryDoc_call (discovery_url (FLAGS w)))
                   (FetchDiscoveryDoc env (discovery_url (FLAGS w))) w of
              (Inl CommunicationError, w) \<Rightarrow> (Inr None, w)
            | (Inl e, w) \<Rightarrow> (Inl e, w)
            | (Inr discovery_doc, w) \<Rightarrow> (Inr (Some discovery_doc), w))
         else (let file = str_or (expanduser env (infile (FLAGS w))) ''/dev/stdin''
            in case load_document (json_load_call file) (json_load_open env file) w of
                 (Inl e, w) \<Rightarrow> (Inl e, w)
               | (Inr discovery_doc, w) \<Rightarrow> (Inr (Some discovery_doc), w))"
  have load: "?load = (Inr (Some discovery_doc), w1)"
    using src by (simp add: Let_def split: if_splits)
  show ?thesis
  proof (cases "path_exists env dir \<and> \<not> overwrite (FLAGS w)")
    case True
    then show ?thesis
      unfolding GetCodegenFromFlags_def load
      using names ci dir F1
      by (simp add: and_then_def call_def new_client_info_def raise_def Let_def)
  next
    case False
    then have no: "\<not> (path_exists env (str_or (expanduser env (outdir (FLAGS w)))
                     (default_directory ci)) \<and> \<not> overwrite (FLAGS w))"
      by (simp add: dir)
    have run: "GetCodegenFromFlags env regs urljoin TRACE_HELP w =
                (case GetPackage env pkg_dir of
                   Inl e \<Rightarrow>
                     (Inl e,
                      w1\<lparr>infos := infos w1 @ [ci],
                         FLAGS := (FLAGS w)\<lparr>root_package_dir := pkg_dir\<rparr>,
                         trace := trace w1 @
                           [Names_call, ClientInfo_Create_call, GetPackage_call pkg_dir]\<rparr>)
                 | Inr root_package \<Rightarrow>
                     (case DescriptorGenerator_init regs urljoin TRACE_HELP discovery_doc
                             (length (infos w1)) names root_package dir
                             (experimental_proto2_output (FLAGS w))
                             (w1\<lparr>infos := infos w1 @ [ci],
                                FLAGS := (FLAGS w)\<lparr>root_package_dir := pkg_dir\<rparr>,
                                trace := trace w1 @
                                  [Names_call, ClientInfo_Create_call, GetPackage_call pkg_dir]\<rparr>) of
                        (Inl e, w3) \<Rightarrow> (Inl e, w3)
                      | (Inr generator, w3) \<Rightarrow> (Inr (Some generator), w3)))"
      unfolding GetCodegenFromFlags_def load
      using names ci no F1
      apply (cases "root_package_dir (FLAGS w) = []";
          cases "overwrite (FLAGS w)";
          cases "path_exists env (str_or (expanduser env (outdir (FLAGS w)))
                   (default_directory ci))")
             apply (simp_all add: and_then_def call_def new_client_info_def return_def Let_def
          pkg_dir dir split: sum.split prod.split)
      done
    show ?thesis by (simp only: False if_False run)
  qed
qed


theorem C8_output_directory_exists_witness:
  "load_document (json_load_call ''doc.json'') (json_load_open example_environment ''doc.json'')
     (example_cli_world example_flags) =
     (Inr (PRef 0),
      \<lparr>heap = [ODict [(''rootUrl'', PStr ''https://x.com/''), (''servicePath'', PStr ''pkg/v1/'')]],
       infos = [], trace = [json_load_call ''doc.json''], FLAGS = example_flags\<rparr>) \<and>
   path_exists example_environment ''existing'' \<and>
   \<not> overwrite example_flags \<and>
   GetCodegenFromFlags example_environment list_registries concat_urljoin ''A trace token.''
     (example_cli_world example_flags) =
     (Inl (ConfigurationValueError output_directory_exists),
      \<lparr>heap = [ODict [(''rootUrl'', PStr ''https://x.com/''), (''servicePath'', PStr ''pkg/v1/'')]],
       infos = [example_info],
       trace = [json_load_call ''doc.json'', Names_call, ClientInfo_Create_call],
       FLAGS = example_flags\<rparr>) \<and>
   (case GetCodegenFromFlags example_environment list_registries concat_urljoin
           ''A trace token.'' (example_cli_world (example_flags\<lparr>overwrite := True\<rparr>)) of
      (Inr (Some generator), w') \<Rightarrow>
         self_outdir generator = ''existing'' \<and> root_package_dir (FLAGS w') = ''/work/existing''
    | (Inr None, w') \<Rightarrow> False
    | (Inl e, w') \<Rightarrow> False)"
proof -
  let ?w = "example_cli_world example_flags"
  let ?w1 = "\<lparr>heap = [ODict [(''rootUrl'', PStr ''https://x.com/''),
                             (''servicePath'', PStr ''pkg/v1/'')]],
       infos = [], trace = [json_load_call ''doc.json''], FLAGS = example_flags\<rparr>"
  have F: "FLAGS ?w = example_flags" by (simp add: example_cli_world_def)
  have l: "load_document (json_load_call ''doc.json'')
     (json_load_open example_environment ''doc.json'') ?w = (Inr (PRef 0), ?w1)"
    by (simp add: load_document_def example_environment_def example_cli_world_def)
  have h1: "(if discovery_url (FLAGS ?w) \<noteq> []
                 then load_document (FetchDiscoveryDoc_call (discovery_url (FLAGS ?w)))
                        (FetchDiscoveryDoc example_environment (discovery_url (FLAGS ?w))) ?w
                 else load_document
                        (json_load_call (str_or (expanduser example_environment
                           (infile (FLAGS ?w))) ''/dev/stdin''))
                        (json_load_open example_environment
                           (str_or (expanduser example_environment (infile (FLAGS ?w)))
                              ''/dev/stdin'')) ?w)
                = (Inr (PRef 0), ?w1)"
    using l by (simp add: F) (simp add: example_flags_def example_environment_def str_or_def)
  have h2: "Names example_environment (strip_prefix (FLAGS ?w))
       (experimental_name_convention (FLAGS ?w)) (experimental_capitalize_enums (FLAGS ?w))
       = Inr ()"
    by (simp add: example_environment_def)
  have h3: "ClientInfo_Create example_environment (heap ?w1) (PRef 0) (scope (FLAGS ?w))
       (client_id (FLAGS ?w)) (client_secret (FLAGS ?w)) (user_agent (FLAGS ?w)) ()
       (api_key (FLAGS ?w)) = Inr example_info"
    by (simp add: example_environment_def)
  have h4: "''existing'' = str_or (expanduser example_environment (outdir (FLAGS ?w)))
       (default_directory example_info)"
    by (simp add: F) (simp add: example_flags_def example_environment_def str_or_def)
  have h5: "''/work/existing'' = abspath example_environment
       (if root_package_dir (FLAGS ?w) = [] then ''existing'' else root_package_dir (FLAGS ?w))"
    by (simp add: F) (simp add: example_flags_def example_environment_def)
  note t = C8_output_directory_exists [where regs = list_registries and urljoin = concat_urljoin
      and TRACE_HELP = "''A trace token.''", OF h1 h2 h3 h4 h5]
  have e: "path_exists example_environment ''existing''"
    by (simp add: example_environment_def)
  have o: "\<not> overwrite example_flags" by (simp add: example_flags_def)
  have c: "path_exists example_environment ''existing'' \<and> \<not> overwrite (FLAGS ?w)"
    using e o by (simp only: F simp_thms)
  note t1 = t [unfolded if_P [OF c]]
  from t1 have run: "GetCodegenFromFlags example_environment list_registries concat_urljoin
     ''A trace token.'' ?w =
     (Inl (ConfigurationValueError output_directory_exists),
      \<lparr>heap = [ODict [(''rootUrl'', PStr ''https://x.com/''), (''servicePath'', PStr ''pkg/v1/'')]],
       infos = [example_info],
       trace = [json_load_call ''doc.json'', Names_call, ClientInfo_Create_call],
       FLAGS = example_flags\<rparr>)"
    by simp
  have over: "case GetCodegenFromFlags example_environment list_registries concat_urljoin
           ''A trace token.'' (example_cli_world (example_flags\<lparr>overwrite := True\<rparr>)) of
      (Inr (Some generator), w') \<Rightarrow>
         self_outdir generator = ''existing'' \<and> root_package_dir (FLAGS w') = ''/work/existing''
    | (Inr None, w') \<Rightarrow> False
    | (Inl e, w') \<Rightarrow> False"
    by code_simp
  from l e o run over show ?thesis by (intro conjI) assumption+
qed



subsection \<open>Iteration order\<close>

text \<open>
  The resources are sorted before the services are added, so the order in which a dict
  yields them does not matter: two listings of the same mapping are sorted to the same
  list.
\<close>

lemma sorted_items_unique:
  assumes "distinct (map fst xs)" and "distinct (map fst ys)" and "set xs = set ys"
  shows "sort_key fst xs = sort_key fst ys"
proof -
  have inj: "inj_on fst (set xs)" using assms(1) by (simp add: distinct_map)
  have s: "set (sort_key fst xs) = set (sort_key fst ys)" using assms(3) by simp
  have i: "inj_on fst (set (sort_key fst xs) \<union> set (sort_key fst ys))"
    using inj assms(3) by simp
  have dx: "distinct (map fst (sort_key fst xs))"
    using assms(1) by (metis distinct_map distinct_sort set_sort)
  have dy: "distinct (map fst (sort_key fst ys))"
    using assms(2) by (metis distinct_map distinct_sort set_sort)
  show ?thesis
    by (rule map_sorted_distinct_set_unique [OF i _ dx _ dy s]) simp_all
qed

text \<open>
  Claim C5. The schemas are not sorted: \<^verbatim>\<open>schemas.iteritems()\<close> is consumed as the dict
  yields it. On the example and on the same document with the dict of schemas yielding
  \<^verbatim>\<open>Bucket\<close> before \<^verbatim>\<open>Item\<close> (as a mapping it is the same dict), the message registry is given
  the schemas in different orders, while the services are added in the same, sorted,
  order.
\<close>

theorem C5_schema_order_follows_iteration:
  "nth_opt (heap example_world) 2 = Some (ODict [(''Item'', PRef 6), (''Bucket'', PRef 7)]) \<and>
   nth_opt example_heap_reordered 2 = Some (ODict [(''Bucket'', PRef 7), (''Item'', PRef 6)]) \<and>
   map_of [(''Item'', PRef 6), (''Bucket'', PRef 7)] =
     map_of [(''Bucket'', PRef 7), (''Item'', PRef 6)] \<and>
   (case example_construction of
      (Inr g, w) \<Rightarrow>
        message_names (self_registries g) =
          [PStr ''Item'', PStr ''Bucket'', PStr ''StandardQueryParameters''] \<and>
        service_names (self_registries g) = [''buckets'', ''items'', ''api''] \<and>
        take 2 (drop 2 (trace w)) =
          [AddDescriptorFromSchema_call (PStr ''Item'') (PRef 6),
           AddDescriptorFromSchema_call (PStr ''Bucket'') (PRef 7)]
    | (Inl e, w) \<Rightarrow> False) \<and>
   (case example_construction_reordered of
      (Inr g, w) \<Rightarrow>
        message_names (self_registries g) =
          [PStr ''Bucket'', PStr ''Item'', PStr ''StandardQueryParameters''] \<and>
        service_names (self_registries g) = [''buckets'', ''items'', ''api''] \<and>
        take 2 (drop 2 (trace w)) =
          [AddDescriptorFromSchema_call (PStr ''Bucket'') (PRef 7),
           AddDescriptorFromSchema_call (PStr ''Item'') (PRef 6)]
    | (Inl e, w) \<Rightarrow> False)"
proof -
  have a: "nth_opt (heap example_world) 2 =
      Some (ODict [(''Item'', PRef 6), (''Bucket'', PRef 7)])"
    by code_simp
  have b: "nth_opt example_heap_reordered 2 =
      Some (ODict [(''Bucket'', PRef 7), (''Item'', PRef 6)])"
    by code_simp
  have c: "map_of [(''Item'', PRef 6), (''Bucket'', PRef 7)] =
     map_of [(''Bucket'', PRef 7), (''Item'', PRef 6)]"
    by (rule ext) simp
  have d: "case example_construction of
      (Inr g, w) \<Rightarrow>
        message_names (self_registries g) =
          [PStr ''Item'', PStr ''Bucket'', PStr ''StandardQueryParameters''] \<and>
        service_names (self_registries g) = [''buckets'', ''items'', ''api''] \<and>
        take 2 (drop 2 (trace w)) =
          [AddDescriptorFromSchema_call (PStr ''Item'') (PRef 6),
           AddDescriptorFromSchema_call (PStr ''Bucket'') (PRef 7)]
    | (Inl e, w) \<Rightarrow> False"
    by code_simp
  have e: "case example_construction_reordered of
      (Inr g, w) \<Rightarrow>
        message_names (self_registries g) =
          [PStr ''Bucket'', PStr ''Item'', PStr ''StandardQueryParameters''] \<and>
        service_names (self_registries g) = [''buckets'', ''items'', ''api''] \<and>
        take 2 (drop 2 (trace w)) =
          [AddDescriptorFromSchema_call (PStr ''Bucket'') (PRef 7),
           AddDescriptorFromSchema_call (PStr ''Item'') (PRef 6)]
    | (Inl e, w) \<Rightarrow> False"
    by code_simp
  from a b c d e show ?thesis by (intro conjI) assumption+
qed

end
